theory Spec2Isabelle
  imports Main "HOL-Library.Word" "HOL-Library.Sublist"
begin

section \<open>JavaScript strings\<close>

text \<open>
  A JavaScript string is a sequence of UTF-16 code units: \<open>length\<close>, \<open>slice\<close>, \<open>startsWith\<close>,
  \<open>replace\<close> and the regular expressions of the component (none has the \<open>u\<close> flag) all work on
  code units. \<open>js\<close> embeds an ASCII literal.
\<close>

type_synonym jsstring = "16 word list"

definition js :: "string \<Rightarrow> jsstring" where
  "js s = map (\<lambda>c. of_nat (of_char c)) s"

text \<open>\<open>String.prototype.trim\<close>: the white space and line terminator code units of ECMAScript.\<close>

definition isWhiteSpace :: "16 word \<Rightarrow> bool" where
  "isWhiteSpace c =
     (c \<in> set [0x9, 0xA, 0xB, 0xC, 0xD, 0x20, 0xA0, 0x1680, 0x2028, 0x2029, 0x202F, 0x205F,
               0x3000, 0xFEFF]
      \<or> (0x2000 \<le> c \<and> c \<le> 0x200A))"

definition trim :: "jsstring \<Rightarrow> jsstring" where
  "trim s = rev (dropWhile isWhiteSpace (rev (dropWhile isWhiteSpace s)))"

text \<open>
  \<open>String.prototype.toLowerCase\<close> on the letters A to Z; every other code unit is kept.
  The component only compares the result with the ASCII prefix \<open>sources:\<close>, and Unicode
  maps no character outside A to Z to one of the letters of that prefix, so the comparison
  is the one JavaScript makes.
\<close>

definition toLowerCase :: "jsstring \<Rightarrow> jsstring" where
  "toLowerCase s = map (\<lambda>c. if 0x41 \<le> c \<and> c \<le> 0x5A then c + 0x20 else c) s"

text \<open>\<open>String.prototype.startsWith\<close> and \<open>String.prototype.includes\<close>.\<close>

definition startsWith :: "jsstring \<Rightarrow> jsstring \<Rightarrow> bool" where
  "startsWith s p = prefix p s"

fun includes' :: "jsstring \<Rightarrow> jsstring \<Rightarrow> bool" where
  "includes' [] p = (p = [])"
| "includes' (c # cs) p = (prefix p (c # cs) \<or> includes' cs p)"

text \<open>\<open>Array.prototype.join\<close> on an array of strings.\<close>

fun join :: "jsstring \<Rightarrow> jsstring list \<Rightarrow> jsstring" where
  "join sep [] = []"
| "join sep [x] = x"
| "join sep (x # y # ys) = x @ sep @ join sep (y # ys)"

text \<open>The decimal digits of a natural number: the text of an \<open>{#each}\<close> index in a template
  literal.\<close>

fun decimal :: "nat \<Rightarrow> jsstring" where
  "decimal n = (if n < 10 then [0x30 + of_nat n] else decimal (n div 10) @ [0x30 + of_nat (n mod 10)])"

declare decimal.simps [simp del]

text \<open>The decimal digits of an integer, with a minus sign before those of a negative one.\<close>

definition integerText :: "int \<Rightarrow> jsstring" where
  "integerText n = (if n < 0 then js ''-'' @ decimal (nat (- n)) else decimal (nat n))"

section \<open>JavaScript numbers\<close>

text \<open>
  The component does two things with a number: it converts it to a string (\<open>'h' + depth\<close>,
  the \<open>start\<close> attribute) and it tests it for truthiness (\<open>token.start || 1\<close>).
  \<open>SafeInteger w\<close> is the integer \<open>sint w\<close>, from \<open>-2^53\<close> to \<open>2^53 - 1\<close>: each of these is a
  number, and its text is its decimal digits. \<open>OtherNumber s\<close> is any other number (a
  non-integer, a larger integer, with its exponent form from \<open>10^21\<close> on, \<open>NaN\<close>, an infinity),
  given by the text \<open>s\<close> that the conversion to a string yields for it.
\<close>

datatype jsnumber = SafeInteger "54 word" | OtherNumber jsstring

fun numberToString :: "jsnumber \<Rightarrow> jsstring" where
  "numberToString (SafeInteger w) = integerText (sint w)"
| "numberToString (OtherNumber s) = s"

text \<open>The falsy numbers are \<open>0\<close>, \<open>-0\<close> (both the integer 0) and \<open>NaN\<close>.\<close>

fun truthy :: "jsnumber \<Rightarrow> bool" where
  "truthy (SafeInteger w) = (w \<noteq> 0)"
| "truthy (OtherNumber s) = (s \<noteq> js ''NaN'')"

section \<open>Tokens\<close>

text \<open>
  A token of the \<open>marked\<close> lexer is an object with a \<open>type\<close> string and the fields of its kind.
  One constructor carries every field the component reads. \<open>tokens\<close>, \<open>lang\<close>, \<open>checked\<close>,
  \<open>attributes\<close> and \<open>displayMode\<close> are optional in the lexer's declarations (\<open>None\<close> is
  \<open>undefined\<close>); \<open>start\<close> is a number or the empty string (\<open>None\<close>); an \<open>align\<close> entry is a
  string or \<open>null\<close> (\<open>None\<close>). The string fields \<open>raw\<close>, \<open>text\<close>, \<open>href\<close>, \<open>summary\<close> and
  \<open>fileId\<close> are strings, empty where a kind does not carry them. List items and table cells
  are tokens too (\<open>items\<close>, \<open>header\<close>, \<open>rows\<close>).
\<close>

type_synonym attrs = "(jsstring \<times> jsstring) list"

datatype token = Token
  (type: jsstring)
  (raw: jsstring)
  (text': jsstring)
  (tokens: "token list option")
  (href: jsstring)
  (items: "token list")
  (depth: jsnumber)
  (header: "token list")
  (rows: "token list list")
  (align: "jsstring option list")
  (lang: "jsstring option")
  (ordered: bool)
  (start: "jsnumber option")
  (loose: bool)
  (task: bool)
  (checked: "bool option")
  (summary: jsstring)
  (attributes: "attrs option")
  (fileId: jsstring)
  (displayMode: "bool option")

section \<open>The source extraction pass\<close>

record source =
  title :: jsstring
  url :: jsstring

text \<open>
  The condition both scans test at the cursor: a paragraph whose only child is a \<open>strong\<close>
  token whose only child is a \<open>text\<close> token whose text, trimmed and lower-cased, starts with
  \<open>sources:\<close>.
\<close>

definition sourcesTrigger :: "token \<Rightarrow> bool" where
  "sourcesTrigger t =
     (type t = js ''paragraph'' \<and>
      (case tokens t of
         None \<Rightarrow> False
       | Some ts \<Rightarrow>
           length ts = 1 \<and> type (ts ! 0) = js ''strong'' \<and>
           (case tokens (ts ! 0) of
              None \<Rightarrow> False
            | Some us \<Rightarrow>
                length us = 1 \<and> type (us ! 0) = js ''text'' \<and>
                startsWith (toLowerCase (trim (text' (us ! 0)))) (js ''sources:''))))"

text \<open>
  \<open>item.text.match(linkRegex)\<close> for \<open>linkRegex = /^\[([^\]]+)\]\(([^\)]+)\)$/\<close>: the two groups
  of the match, or \<open>None\<close> for \<open>null\<close>. The first group cannot contain \<open>]\<close> and is followed by
  \<open>]\<close>, so it is the text up to the first \<open>]\<close>; the second likewise up to the first \<open>)\<close>, which
  must end the string.
\<close>

definition linkRegex :: "jsstring \<Rightarrow> (jsstring \<times> jsstring) option" where
  "linkRegex s =
     (case s of
        [] \<Rightarrow> None
      | c # r0 \<Rightarrow>
          if c \<noteq> 0x5B then None
          else
            let m1 = takeWhile (\<lambda>c. c \<noteq> 0x5D) r0; r1 = dropWhile (\<lambda>c. c \<noteq> 0x5D) r0
            in if m1 = [] then None
               else
                 (case r1 of
                    a # b # r2 \<Rightarrow>
                      if a = 0x5D \<and> b = 0x28 then
                        let m2 = takeWhile (\<lambda>c. c \<noteq> 0x29) r2; r3 = dropWhile (\<lambda>c. c \<noteq> 0x29) r2
                        in if m2 = [] then None
                           else if r3 = [0x29] then Some (m1, m2)
                           else None
                      else None
                  | _ \<Rightarrow> None))"

text \<open>The body of \<open>for (const item of listToken.items)\<close>, with the array \<open>sources\<close> threaded.\<close>

fun itemsLoop :: "token list \<Rightarrow> source list \<Rightarrow> source list" where
  "itemsLoop [] sources = sources"
| "itemsLoop (item # rest) sources =
     (case find (\<lambda>t. type t = js ''link'') (case tokens item of Some ts \<Rightarrow> ts | None \<Rightarrow> []) of
        Some linkToken \<Rightarrow>
          itemsLoop rest (sources @ [\<lparr>title = text' linkToken, url = href linkToken\<rparr>])
      | None \<Rightarrow>
          if text' item \<noteq> [] then
            (case linkRegex (text' item) of
               Some (m1, m2) \<Rightarrow> itemsLoop rest (sources @ [\<lparr>title = m1, url = m2\<rparr>])
             | None \<Rightarrow> itemsLoop rest sources)
          else itemsLoop rest sources)"

text \<open>The \<open>while (i < tokens.length)\<close> loop of \<open>extractAllSourcesFromTokens\<close>, with its
  cursor \<open>i\<close> and its array \<open>sources\<close>. \<open>tokens[i + 1]\<close> is \<open>undefined\<close> past the end.\<close>

function extractLoop :: "token list \<Rightarrow> nat \<Rightarrow> source list \<Rightarrow> source list" where
  "extractLoop toks i sources =
     (if i < length toks then
        (if sourcesTrigger (toks ! i) then
           (if i + 1 < length toks \<and> type (toks ! (i + 1)) = js ''list'' then
              extractLoop toks (i + 2) (itemsLoop (items (toks ! (i + 1))) sources)
            else extractLoop toks (i + 1) sources)
         else extractLoop toks (i + 1) sources)
      else sources)"
  by pat_completeness auto
termination
  by (relation "measure (\<lambda>(toks, i, sources). length toks - i)") auto

declare extractLoop.simps [simp del]

definition extractAllSourcesFromTokens :: "token list \<Rightarrow> source list" where
  "extractAllSourcesFromTokens toks = extractLoop toks 0 []"

text \<open>The loop of \<open>filterOutAllSourcesSections\<close>, with its cursor and its array \<open>filtered\<close>.\<close>

function filterLoop :: "token list \<Rightarrow> nat \<Rightarrow> token list \<Rightarrow> token list" where
  "filterLoop toks i filtered =
     (if i < length toks then
        (if sourcesTrigger (toks ! i) then
           (if i + 1 < length toks \<and> type (toks ! (i + 1)) = js ''list'' then
              filterLoop toks (i + 2) filtered
            else filterLoop toks (i + 1) filtered)
         else filterLoop toks (i + 1) (filtered @ [toks ! i]))
      else filtered)"
  by pat_completeness auto
termination
  by (relation "measure (\<lambda>(toks, i, filtered). length toks - i)") auto

declare filterLoop.simps [simp del]

definition filterOutAllSourcesSections :: "token list \<Rightarrow> token list" where
  "filterOutAllSourcesSections toks = filterLoop toks 0 []"

text \<open>The reactive declarations \<open>extractedSources\<close> and \<open>filteredTokens\<close>.\<close>

definition extractedSources :: "token list \<Rightarrow> source list" where
  "extractedSources toks = extractAllSourcesFromTokens toks"

definition filteredTokens :: "token list \<Rightarrow> token list" where
  "filteredTokens toks =
     (if length (extractedSources toks) > 0 then filterOutAllSourcesSections toks
      else toks)"

text \<open>
  A list item that is the markdown link \<open>[T](U)\<close>, as the item loop reads one: the first
  \<open>link\<close> token among the item's own children has text \<open>T\<close> and target \<open>U\<close>; or there is no
  such child, the item's text is \<open>[T](U)\<close>, and \<open>T\<close> and \<open>U\<close> are non-empty with no \<open>]\<close> in \<open>T\<close>
  and no \<open>)\<close> in \<open>U\<close>.
\<close>

definition markdownLinkItem :: "token \<Rightarrow> jsstring \<Rightarrow> jsstring \<Rightarrow> bool" where
  "markdownLinkItem item T U =
     (case find (\<lambda>t. type t = js ''link'') (case tokens item of Some ts \<Rightarrow> ts | None \<Rightarrow> []) of
        Some linkToken \<Rightarrow> text' linkToken = T \<and> href linkToken = U
      | None \<Rightarrow>
          text' item = js ''['' @ T @ js '']('' @ U @ js '')'' \<and>
          T \<noteq> [] \<and> 0x5D \<notin> set T \<and> U \<noteq> [] \<and> 0x29 \<notin> set U)"

text \<open>
  What the item loop reads of a list item: the text and the target of the first \<open>link\<close>
  token among the item's own children, when there is one, and the item's text.
\<close>

definition itemView :: "token \<Rightarrow> (jsstring \<times> jsstring) option \<times> jsstring" where
  "itemView item =
     (map_option (\<lambda>linkToken. (text' linkToken, href linkToken))
        (find (\<lambda>t. type t = js ''link'') (case tokens item of Some ts \<Rightarrow> ts | None \<Rightarrow> [])),
      text' item)"

text \<open>
  The tokens a scan of the top level keeps, each looked at with its predecessor: a token
  stays unless it is a trigger paragraph, or a list right after a trigger paragraph.
\<close>

definition keptByScan :: "token option \<times> token \<Rightarrow> bool" where
  "keptByScan pt =
     (case pt of
        (prev, t) \<Rightarrow>
          \<not> sourcesTrigger t \<and>
          \<not> (type t = js ''list'' \<and> (case prev of Some q \<Rightarrow> sourcesTrigger q | None \<Rightarrow> False)))"

section \<open>The CSV export handler\<close>

datatype error = TypeError

text \<open>\<open>Array.prototype.map\<close> with a callback that may throw: the first exception ends it.\<close>

fun mapE :: "('a \<Rightarrow> error + 'b) \<Rightarrow> 'a list \<Rightarrow> error + 'b list" where
  "mapE f [] = Inr []"
| "mapE f (x # xs) =
     (case f x of
        Inl e \<Rightarrow> Inl e
      | Inr y \<Rightarrow> (case mapE f xs of Inl e \<Rightarrow> Inl e | Inr ys \<Rightarrow> Inr (y # ys)))"

text \<open>\<open>s.replace(/"/g, '""')\<close> and the quoting \<open>`"${...}"`\<close> around it.\<close>

definition replaceQuotes :: "jsstring \<Rightarrow> jsstring" where
  "replaceQuotes s = concat (map (\<lambda>c. if c = 0x22 then [0x22, 0x22] else [c]) s)"

definition quoted :: "jsstring \<Rightarrow> jsstring" where
  "quoted s = [0x22] @ replaceQuotes s @ [0x22]"

text \<open>The callback of \<open>row.map\<close>: \<open>cell.tokens.map\<close> throws on a cell without \<open>tokens\<close>.\<close>

definition cellField :: "token \<Rightarrow> error + jsstring" where
  "cellField cell =
     (case tokens cell of
        None \<Rightarrow> Inl TypeError
      | Some ts \<Rightarrow> (let cellContent = join [] (map text' ts) in Inr (quoted cellContent)))"

definition bom :: jsstring where
  "bom = [0xFEFF]"

text \<open>What \<open>saveAs\<close> receives: the text of the blob, its MIME type and the file name.
  The \<open>console.log\<close> calls of the handler write to the console only.\<close>

record savedFile =
  content :: jsstring
  mimeType :: jsstring
  filename :: jsstring

definition exportTableToCSVHandler :: "jsstring \<Rightarrow> token \<Rightarrow> nat \<Rightarrow> error + savedFile" where
  "exportTableToCSVHandler id' token tokenIdx =
     (let header' = map (\<lambda>headerCell. quoted (text' headerCell)) (header token)
      in case mapE (\<lambda>row. mapE cellField row) (rows token) of
           Inl e \<Rightarrow> Inl e
         | Inr rows' \<Rightarrow>
             (let csvData = header' # rows';
                  csvContent = join (js ''\<newline>'') (map (\<lambda>row. join (js '','') row) csvData)
              in Inr \<lparr>content = bom @ csvContent,
                      mimeType = js ''text/csv;charset=UTF-8'',
                      filename = js ''table-'' @ id' @ js ''-'' @ decimal tokenIdx @ js ''.csv''\<rparr>))"

section \<open>The template\<close>

definition headerComponent :: "jsnumber \<Rightarrow> jsstring" where
  "headerComponent depth' = js ''h'' @ numberToString depth'"

text \<open>
  The \<open>style\<close> attribute of a header or body cell of column \<open>idx\<close>:
  \<open>token.align[idx] ? '' : `text-align: ${token.align[idx]}`\<close>. An entry past the end of
  \<open>align\<close> is \<open>undefined\<close>; \<open>undefined\<close>, \<open>null\<close> and the empty string are falsy.
\<close>

definition cellStyle :: "token \<Rightarrow> nat \<Rightarrow> jsstring" where
  "cellStyle token idx =
     (if idx < length (align token) then
        (case align token ! idx of
           Some a \<Rightarrow> if a \<noteq> [] then [] else js ''text-align: '' @ a
         | None \<Rightarrow> js ''text-align: null'')
      else js ''text-align: undefined'')"

text \<open>The text of a citation card:
  \<open>source.title.length > 48 ? `${source.title.slice(0, 45)}...` : source.title\<close>.\<close>

definition citationTitle :: "jsstring \<Rightarrow> jsstring" where
  "citationTitle t = (if length t > 48 then take 45 t @ js ''...'' else t)"

text \<open>\<open>getYouTubeId\<close>: the first match of
  \<open>/(?:youtube\.com\/watch\?v=|youtu\.be\/)([a-zA-Z0-9_-]{11})/\<close> in the url, its group 1.\<close>

definition isIdChar :: "16 word \<Rightarrow> bool" where
  "isIdChar c =
     ((0x61 \<le> c \<and> c \<le> 0x7A) \<or> (0x41 \<le> c \<and> c \<le> 0x5A) \<or> (0x30 \<le> c \<and> c \<le> 0x39)
      \<or> c = 0x5F \<or> c = 0x2D)"

definition idAfter :: "jsstring \<Rightarrow> jsstring \<Rightarrow> jsstring option" where
  "idAfter p s =
     (if prefix p s then
        (let r = drop (length p) s
         in if 11 \<le> length r \<and> list_all isIdChar (take 11 r) then Some (take 11 r) else None)
      else None)"

definition youTubeMatchAt :: "jsstring \<Rightarrow> jsstring option" where
  "youTubeMatchAt s =
     (case idAfter (js ''youtube.com/watch?v='') s of
        Some v \<Rightarrow> Some v
      | None \<Rightarrow> idAfter (js ''youtu.be/'') s)"

fun getYouTubeId :: "jsstring \<Rightarrow> jsstring option" where
  "getYouTubeId [] = None"
| "getYouTubeId (c # cs) =
     (case youTubeMatchAt (c # cs) of Some v \<Rightarrow> Some v | None \<Rightarrow> getYouTubeId cs)"

text \<open>
  What the markup emits. An element has its tag, its attributes (the \<open>class\<close> attributes,
  which only style, are left out) and its children. A child component is recorded with the
  props the markup passes to it, the recursive \<open>svelte:self\<close> included: its own output is
  this template again, on those props. Callback props (\<open>onSourceClick\<close>, \<open>onTaskClick\<close>,
  \<open>onSave\<close>, \<open>onUpdate\<close>, \<open>onPreview\<close>) are not recorded. The type \<open>'alert\<close> is that of the
  descriptor the imported \<open>alertComponent\<close> returns and \<open>AlertRenderer\<close> receives.
\<close>

record taskEvent =
  eventId :: jsstring
  eventToken :: token
  eventTokenIdx :: nat
  eventItem :: token
  eventItemIdx :: nat

datatype 'alert node =
    Element jsstring "(string \<times> jsstring) list" "'alert node list"
  | TextNode jsstring
  | UndefinedText
  | MarkdownInlineTokens jsstring "token list option"
  | CodeBlock jsstring bool token jsstring jsstring attrs bool bool
  | KatexRenderer jsstring bool
  | AlertRenderer token "'alert"
  | Collapsible jsstring bool "attrs option" "'alert node list"
  | HtmlToken jsstring token
  | SvelteSelf jsstring "token list option" "bool option" "attrs option"
  | Tooltip jsstring "'alert node list"
  | TaskInput "bool option" taskEvent
  | ExportButton token nat "'alert node list"
  | Icon string "(string \<times> jsstring) list"
  | Style

datatype logEntry =
    LogTokens "token list"
  | LogUnknownToken token

text \<open>The ambient values the markup reads: the \<open>settings\<close> store, the imported helpers
  \<open>alertComponent\<close>, \<open>unescapeHtml\<close> and \<open>marked.lexer\<close>, the translation function and the
  constant \<open>WEBUI_BASE_URL\<close>.\<close>

record 'alert env =
  collapseCodeBlocks :: "bool option"
  expandDetails :: "bool option"
  alertComponent :: "token \<Rightarrow> 'alert option"
  unescapeHtml :: "jsstring \<Rightarrow> jsstring"
  lexer :: "jsstring \<Rightarrow> token list"
  i18n_t :: "jsstring \<Rightarrow> jsstring"
  WEBUI_BASE_URL :: jsstring

text \<open>The props of the component other than \<open>tokens\<close> and the callbacks.\<close>

record props =
  id' :: jsstring
  top' :: bool
  attributes' :: attrs
  save :: bool
  preview :: bool

definition childId :: "jsstring \<Rightarrow> nat \<Rightarrow> jsstring" where
  "childId i tokenIdx = i @ js ''-'' @ decimal tokenIdx"

definition listItems :: "props \<Rightarrow> token \<Rightarrow> nat \<Rightarrow> 'alert node list" where
  "listItems p token tokenIdx =
     map (\<lambda>(itemIdx, item).
            Element (js ''li'') []
              ((if task item then
                  [TaskInput (checked item)
                     \<lparr>eventId = id' p, eventToken = token, eventTokenIdx = tokenIdx,
                      eventItem = item, eventItemIdx = itemIdx\<rparr>]
                else [])
               @ [SvelteSelf (childId (id' p) tokenIdx @ js ''-'' @ decimal itemIdx)
                    (tokens item) (Some (loose token)) None]))
         (enumerate 0 (items token))"

definition tableNodes :: "'alert env \<Rightarrow> props \<Rightarrow> token \<Rightarrow> nat \<Rightarrow> 'alert node list" where
  "tableNodes e p token tokenIdx =
     [Element (js ''div'') []
        [Element (js ''div'') []
           [Element (js ''table'') []
              [Element (js ''thead'') []
                 [Element (js ''tr'') []
                    (map (\<lambda>(headerIdx, header').
                            Element (js ''th'')
                              [(''scope'', js ''col''), (''style'', cellStyle token headerIdx)]
                              [Element (js ''div'') []
                                 [Element (js ''div'') []
                                    [MarkdownInlineTokens
                                       (childId (id' p) tokenIdx @ js ''-header-'' @ decimal headerIdx)
                                       (tokens header')]]])
                         (enumerate 0 (header token)))],
               Element (js ''tbody'') []
                 (map (\<lambda>(rowIdx, row).
                         Element (js ''tr'') []
                           (map (\<lambda>(cellIdx, cell).
                                   Element (js ''td'') [(''style'', cellStyle token cellIdx)]
                                     [Element (js ''div'') []
                                        [MarkdownInlineTokens
                                           (childId (id' p) tokenIdx @ js ''-row-'' @ decimal rowIdx
                                              @ js ''-'' @ decimal cellIdx)
                                           (tokens cell)]])
                                (enumerate 0 row)))
                      (enumerate 0 (rows token)))]],
         Element (js ''div'') []
           [Tooltip (i18n_t e (js ''Export to CSV''))
              [ExportButton token tokenIdx
                 [Icon ''ArrowDownTray'' [(''strokeWidth'', js ''1.5'')]]]]]]"

text \<open>The token types the \<open>{#if}\<close> chain of the markup names.\<close>

definition dispatchedTypes :: "jsstring list" where
  "dispatchedTypes =
     map js [''hr'', ''heading'', ''code'', ''table'', ''blockquote'', ''list'', ''details'',
             ''html'', ''iframe'', ''paragraph'', ''text'', ''inlineKatex'', ''blockKatex'',
             ''space'']"

text \<open>The element names of HTML headings.\<close>

definition headingTags :: "jsstring list" where
  "headingTags = map js [''h1'', ''h2'', ''h3'', ''h4'', ''h5'', ''h6'']"

text \<open>One pass of the \<open>{#each filteredTokens as token, tokenIdx}\<close> block: the \<open>{#if}\<close> chain on
  \<open>token.type\<close>, in the order of the markup. The result is the nodes emitted and the console
  entries written.\<close>

definition renderToken ::
  "'alert env \<Rightarrow> props \<Rightarrow> token \<Rightarrow> nat \<Rightarrow> 'alert node list \<times> logEntry list" where
  "renderToken e p token tokenIdx =
     (if type token = js ''hr'' then ([Element (js ''hr'') [] []], [])
      else if type token = js ''heading'' then
        ([Element (headerComponent (depth token)) [(''dir'', js ''auto'')]
            [MarkdownInlineTokens (childId (id' p) tokenIdx @ js ''-h'') (tokens token)]], [])
      else if type token = js ''code'' then
        (if includes' (raw token) (js ''```'') then
           ([CodeBlock (childId (id' p) tokenIdx)
               (case collapseCodeBlocks e of Some b \<Rightarrow> b | None \<Rightarrow> False)
               token
               (case lang token of Some l \<Rightarrow> l | None \<Rightarrow> [])
               (text' token) (attributes' p) (save p) (preview p)], [])
         else ([TextNode (text' token)], []))
      else if type token = js ''table'' then (tableNodes e p token tokenIdx, [])
      else if type token = js ''blockquote'' then
        (case alertComponent e token of
           Some alert \<Rightarrow> ([AlertRenderer token alert], [])
         | None \<Rightarrow>
             ([Element (js ''blockquote'') [(''dir'', js ''auto'')]
                 [SvelteSelf (childId (id' p) tokenIdx) (tokens token) None None]], []))
      else if type token = js ''list'' then
        (if ordered token then
           ([Element (js ''ol'')
               [(''start'', numberToString
                   (case start token of
                      Some n \<Rightarrow> if truthy n then n else SafeInteger 1
                    | None \<Rightarrow> SafeInteger 1)),
                (''dir'', js ''auto'')]
               (listItems p token tokenIdx)], [])
         else ([Element (js ''ul'') [(''dir'', js ''auto'')] (listItems p token tokenIdx)], []))
      else if type token = js ''details'' then
        ([Collapsible (summary token)
            (case expandDetails e of Some b \<Rightarrow> b | None \<Rightarrow> False)
            (attributes token)
            [Element (js ''div'') []
               [SvelteSelf (childId (id' p) tokenIdx @ js ''-d'')
                  (Some (lexer e (text' token))) None (attributes token)]]], [])
      else if type token = js ''html'' then ([HtmlToken (id' p) token], [])
      else if type token = js ''iframe'' then
        ([Element (js ''iframe'')
            [(''src'', WEBUI_BASE_URL e @ js ''/api/v1/files/'' @ fileId token @ js ''/content''),
             (''title'', fileId token), (''width'', js ''100%''), (''frameborder'', js ''0''),
             (''onload'',
              js ''this.style.height=(this.contentWindow.document.body.scrollHeight+20)+'' @
              [0x27] @ js ''px'' @ [0x27] @ js '';'')]
            []], [])
      else if type token = js ''paragraph'' then
        ([Element (js ''p'') [(''dir'', js ''auto'')]
            [MarkdownInlineTokens (childId (id' p) tokenIdx @ js ''-p'')
               (Some (case tokens token of Some ts \<Rightarrow> ts | None \<Rightarrow> []))]], [])
      else if type token = js ''text'' then
        (if top' p then
           ([Element (js ''p'') []
               [case tokens token of
                  Some ts \<Rightarrow> MarkdownInlineTokens (childId (id' p) tokenIdx @ js ''-t'') (Some ts)
                | None \<Rightarrow> TextNode (unescapeHtml e (text' token))]], [])
         else
           (case tokens token of
              Some ts \<Rightarrow> ([MarkdownInlineTokens (childId (id' p) tokenIdx @ js ''-p'') (Some ts)], [])
            | None \<Rightarrow> ([TextNode (unescapeHtml e (text' token))], [])))
      else if type token = js ''inlineKatex'' then
        (if text' token \<noteq> [] then
           ([KatexRenderer (text' token)
               (case displayMode token of Some b \<Rightarrow> b | None \<Rightarrow> False)], [])
         else ([], []))
      else if type token = js ''blockKatex'' then
        (if text' token \<noteq> [] then
           ([KatexRenderer (text' token)
               (case displayMode token of Some b \<Rightarrow> b | None \<Rightarrow> False)], [])
         else ([], []))
      else if type token = js ''space'' then ([Element (js ''div'') [] []], [])
      else ([UndefinedText], [LogUnknownToken token]))"

text \<open>The elements and components among the nodes emitted: text interpolations are left
  out.\<close>

definition elementsOf :: "'alert node list \<Rightarrow> 'alert node list" where
  "elementsOf ns =
     filter (\<lambda>n. case n of TextNode s \<Rightarrow> False | UndefinedText \<Rightarrow> False | _ \<Rightarrow> True) ns"

text \<open>The \<open>{#each}\<close> block from index \<open>tokenIdx\<close> on.\<close>

fun eachToken ::
  "'alert env \<Rightarrow> props \<Rightarrow> nat \<Rightarrow> token list \<Rightarrow> 'alert node list \<times> logEntry list" where
  "eachToken e p tokenIdx [] = ([], [])"
| "eachToken e p tokenIdx (token # rest) =
     (let (nodes, logs) = renderToken e p token tokenIdx;
          (nodes', logs') = eachToken e p (Suc tokenIdx) rest
      in (nodes @ nodes', logs @ logs'))"

text \<open>One card of the citation strip, and the strip: \<open>{#if extractedSources}\<close> holds for
  every array, the empty one too.\<close>

definition citationCard :: "source \<Rightarrow> 'alert node" where
  "citationCard source =
     Element (js ''a'')
       [(''href'', url source), (''target'', js ''_blank''), (''rel'', js ''noopener noreferrer''),
        (''title'', title source)]
       ((case getYouTubeId (url source) of
           Some v \<Rightarrow>
             [Element (js ''img'')
                [(''src'', js ''https://img.youtube.com/vi/'' @ v @ js ''/hqdefault.jpg''),
                 (''alt'', js ''YouTube thumbnail'')] []]
         | None \<Rightarrow> [])
        @ [Element (js ''div'') []
             [Element (js ''div'') []
                [Icon ''YouTube'' [(''size'', js ''18''), (''color'', js ''#ff0000'')]],
              Element (js ''div'') [] [TextNode (citationTitle (title source))]]])"

definition citationStrip :: "source list \<Rightarrow> 'alert node list" where
  "citationStrip sources =
     [Style, Element (js ''div'') [] [Element (js ''div'') [] (map citationCard sources)]]"

text \<open>The component: the script runs (its \<open>console.log\<close> of the tokens, the two reactive
  declarations), then the markup.\<close>

definition MarkdownTokens ::
  "'alert env \<Rightarrow> props \<Rightarrow> token list \<Rightarrow> 'alert node list \<times> logEntry list" where
  "MarkdownTokens e p toks =
     (let (nodes, logs) = eachToken e p 0 (filteredTokens toks)
      in (nodes @ citationStrip (extractedSources toks), LogTokens toks # logs))"

section \<open>Example tokens\<close>

text \<open>
  Tokens as the lexer produces them, for the concrete instances below. \<open>mkToken\<close> sets the
  type, the text (also taken as \<open>raw\<close>) and the children; every other field is absent or empty.
\<close>

definition mkToken :: "jsstring \<Rightarrow> jsstring \<Rightarrow> token list option \<Rightarrow> token" where
  "mkToken ty s ts =
     Token ty s s ts [] [] (SafeInteger 0) [] [] [] None False None False False None [] None [] None"

definition mkText :: "jsstring \<Rightarrow> token" where
  "mkText s = mkToken (js ''text'') s None"

definition mkStrong :: "jsstring \<Rightarrow> token" where
  "mkStrong s = mkToken (js ''strong'') s (Some [mkText s])"

definition mkParagraph :: "jsstring \<Rightarrow> token list \<Rightarrow> token" where
  "mkParagraph s ts = mkToken (js ''paragraph'') s (Some ts)"

definition mkLink :: "jsstring \<Rightarrow> jsstring \<Rightarrow> token" where
  "mkLink t u =
     Token (js ''link'') t t (Some [mkText t]) u [] (SafeInteger 0) [] [] [] None False None False False None
       [] None [] None"

definition mkListItem :: "jsstring \<Rightarrow> token list \<Rightarrow> token" where
  "mkListItem s ts = mkToken (js ''list_item'') s (Some ts)"

definition mkList :: "token list \<Rightarrow> token" where
  "mkList its =
     Token (js ''list'') [] [] None [] its (SafeInteger 0) [] [] [] None False None False False None
       [] None [] None"

definition mkHeading :: "jsnumber \<Rightarrow> jsstring \<Rightarrow> token" where
  "mkHeading d s =
     Token (js ''heading'') s s (Some [mkText s]) [] [] d [] [] [] None False None False False
       None [] None [] None"

definition mkBlockquote :: "token list \<Rightarrow> token" where
  "mkBlockquote ts = mkToken (js ''blockquote'') [] (Some ts)"

definition mkCell :: "jsstring \<Rightarrow> token list \<Rightarrow> token" where
  "mkCell s ts = mkToken [] s (Some ts)"

definition mkTable :: "token list \<Rightarrow> token list list \<Rightarrow> jsstring option list \<Rightarrow> token" where
  "mkTable hs rs al =
     Token (js ''table'') [] [] None [] [] (SafeInteger 0) hs rs al None False None False False None
       [] None [] None"

text \<open>The paragraph \<open>**Sources:**\<close>, and the list item \<open>- [t](u)\<close>: the lexer puts the link
  inside the item's \<open>text\<close> token and keeps the source text in \<open>item.text\<close>.\<close>

definition sourcesParagraph :: token where
  "sourcesParagraph = mkParagraph (js ''**Sources:**'') [mkStrong (js ''Sources:'')]"

definition mkLinkItem :: "jsstring \<Rightarrow> jsstring \<Rightarrow> token" where
  "mkLinkItem t u =
     (let s = js ''['' @ t @ js '']('' @ u @ js '')''
      in mkListItem s [mkToken (js ''text'') s (Some [mkLink t u])])"

definition plainParagraph :: token where
  "plainParagraph = mkParagraph (js ''Hello'') [mkText (js ''Hello'')]"

definition unknownToken :: token where
  "unknownToken = mkToken (js ''footnote'') (js ''note'') None"

definition exampleEnv :: "unit env" where
  "exampleEnv =
     \<lparr>collapseCodeBlocks = None, expandDetails = None, alertComponent = (\<lambda>t. None),
      unescapeHtml = (\<lambda>s. s), lexer = (\<lambda>s. []), i18n_t = (\<lambda>s. s), WEBUI_BASE_URL = []\<rparr>"

definition exampleProps :: props where
  "exampleProps = \<lparr>id' = js ''m'', top' = True, attributes' = [], save = False, preview = False\<rparr>"

text \<open>A list of two link items: \<open>- [Intro](https://youtu.be/dQw4w9WgXcQ)\<close> as the lexer
  gives it, and an item with a \<open>link\<close> token of its own.\<close>

definition linkList :: token where
  "linkList =
     mkList [mkLinkItem (js ''Intro'') (js ''https://youtu.be/dQw4w9WgXcQ''),
             mkListItem (js ''Docs'') [mkLink (js ''Docs'') (js ''https://example.org/docs'')]]"

text \<open>The list \<open>- [Foo](https://en.wikipedia.org/wiki/Foo_(bar))\<close>.\<close>

definition parenList :: token where
  "parenList = mkList [mkLinkItem (js ''Foo'') (js ''https://en.wikipedia.org/wiki/Foo_(bar)'')]"

text \<open>A blockquote and a list item that hold a sources paragraph and its list.\<close>

definition nestedQuote :: token where
  "nestedQuote = mkBlockquote [sourcesParagraph, linkList]"

definition nestedList :: token where
  "nestedList = mkList [mkListItem (js ''nested'') [sourcesParagraph, linkList]]"

definition flatList :: token where
  "flatList = mkList [mkListItem (js ''nested'') []]"

text \<open>Tables: the one of the CSV example, one with a centred column, one with no alignment.\<close>

definition csvTable :: token where
  \<open>csvTable =
     mkTable [mkCell (js ''A'') [mkText (js ''A'')], mkCell (js ''B'') [mkText (js ''B'')]]
       [[mkCell (js ''x,y'') [mkText (js ''x,y'')],
         mkCell (js ''He said "hi"'') [mkText (js ''He said ''), mkText (js ''"hi"'')]]]
       [None, None]\<close>

definition centredTable :: token where
  "centredTable =
     mkTable [mkCell (js ''A'') [mkText (js ''A'')]] [[mkCell (js ''x'') [mkText (js ''x'')]]]
       [Some (js ''center'')]"

definition unalignedTable :: token where
  "unalignedTable =
     mkTable [mkCell (js ''A'') [mkText (js ''A'')]] [[mkCell (js ''x'') [mkText (js ''x'')]]]
       [None]"

text \<open>Titles of 48 and of 60 code units.\<close>

definition title48 :: jsstring where
  "title48 = js ''An introduction to verified markdown rendering 1''"

definition title60 :: jsstring where
  "title60 = js ''An introduction to verified markdown rendering, parts 1 to 3''"

section \<open>The two scans, token by token\<close>

lemma itemsLoop_append: "itemsLoop its (a @ b) = a @ itemsLoop its b"
  by (induction its arbitrary: b) (simp_all split: option.splits prod.splits)

lemma extractLoop_append: "extractLoop toks i (a @ b) = a @ extractLoop toks i b"
proof (induction toks i b rule: extractLoop.induct)
  case (1 toks i sources)
  show ?case
    using 1 
    by (simp add: extractLoop.simps[of toks i sources] extractLoop.simps[of toks i "a @ sources"] itemsLoop_append)
qed

lemma extractLoop_shift: "extractLoop (x # toks) (Suc i) acc = extractLoop toks i acc"
proof (induction toks i acc rule: extractLoop.induct)
  case (1 toks i sources)
  show ?case
    using 1 
    by (simp add: extractLoop.simps[of toks i sources] extractLoop.simps[of "x # toks" "Suc i" sources])
qed

lemma extract_Nil: "extractAllSourcesFromTokens [] = []"
  by (simp add: extractAllSourcesFromTokens_def extractLoop.simps[of "[]" 0 "[]"])

lemma extract_Cons:
  "extractAllSourcesFromTokens (t # ts) =
     (if sourcesTrigger t \<and> ts \<noteq> [] \<and> type (hd ts) = js ''list''
      then itemsLoop (items (hd ts)) [] @ extractAllSourcesFromTokens (tl ts)
      else extractAllSourcesFromTokens ts)"
proof (cases ts)
  case Nil
  then show ?thesis
    by (simp add: extractAllSourcesFromTokens_def extractLoop.simps[of "[t]" 0 "[]"] extractLoop.simps[of "[t]" "Suc 0" "[]"] extractLoop.simps[of "[]" 0 "[]"])
next
  case (Cons l r)
  have a: "extractLoop (t # l # r) (Suc (Suc 0)) acc = extractLoop r 0 acc" for acc
    by (simp add: extractLoop_shift)
  have b: "extractLoop (t # l # r) (Suc 0) acc = extractLoop (l # r) 0 acc" for acc
    by (simp add: extractLoop_shift)
  have c: "extractLoop r 0 (itemsLoop (items l) []) = itemsLoop (items l) [] @ extractLoop r 0 []"
    using extractLoop_append[of r 0 "itemsLoop (items l) []" "[]"] by simp
  show ?thesis
    unfolding extractAllSourcesFromTokens_def Cons
    using a b c
    by (simp add: extractLoop.simps[of "t # l # r" 0 "[]"] numeral_2_eq_2)
qed

lemma filterLoop_append: "filterLoop toks i (a @ b) = a @ filterLoop toks i b"
proof (induction toks i b rule: filterLoop.induct)
  case (1 toks i filtered)
  show ?case
    using 1 
    by (simp add: filterLoop.simps[of toks i filtered] filterLoop.simps[of toks i "a @ filtered"])
qed

lemma filterLoop_shift: "filterLoop (x # toks) (Suc i) acc = filterLoop toks i acc"
proof (induction toks i acc rule: filterLoop.induct)
  case (1 toks i filtered)
  show ?case
    using 1 
    by (simp add: filterLoop.simps[of toks i filtered] filterLoop.simps[of "x # toks" "Suc i" filtered])
qed

lemma filter_Nil: "filterOutAllSourcesSections [] = []"
  by (simp add: filterOutAllSourcesSections_def filterLoop.simps[of "[]" 0 "[]"])

lemma filter_Cons:
  "filterOutAllSourcesSections (t # ts) =
     (if sourcesTrigger t then
        (if ts \<noteq> [] \<and> type (hd ts) = js ''list'' then filterOutAllSourcesSections (tl ts)
         else filterOutAllSourcesSections ts)
      else t # filterOutAllSourcesSections ts)"
proof (cases ts)
  case Nil
  then show ?thesis
    by (simp add: filterOutAllSourcesSections_def filterLoop.simps[of "[t]" 0 "[]"] filterLoop.simps[of "[t]" "Suc 0"] filterLoop.simps[of "[]" 0 "[]"])
next
  case (Cons l r)
  have a: "filterLoop (t # l # r) (Suc (Suc 0)) acc = filterLoop r 0 acc" for acc
    by (simp add: filterLoop_shift)
  have b: "filterLoop (t # l # r) (Suc 0) acc = filterLoop (l # r) 0 acc" for acc
    by (simp add: filterLoop_shift)
  have c: "filterLoop (l # r) 0 [t] = t # filterLoop (l # r) 0 []"
    using filterLoop_append[of "l # r" 0 "[t]" "[]"] by simp
  show ?thesis
    unfolding filterOutAllSourcesSections_def Cons
    using a b c
    by (simp add: filterLoop.simps[of "t # l # r" 0 "[]"] numeral_2_eq_2)
qed

lemma trigger_type: "sourcesTrigger t \<Longrightarrow> type t = js ''paragraph''"
  by (simp add: sourcesTrigger_def)

lemma paragraph_not_list: "js ''paragraph'' \<noteq> js ''list''"
  by (simp add: js_def)

lemma trigger_not_list: "sourcesTrigger t \<Longrightarrow> type t \<noteq> js ''list''"
  using trigger_type paragraph_not_list by metis

lemma extract_append:
  "ys = [] \<or> type (hd ys) \<noteq> js ''list'' \<Longrightarrow>
   extractAllSourcesFromTokens (xs @ ys) =
     extractAllSourcesFromTokens xs @ extractAllSourcesFromTokens ys"
proof (induction xs rule: induct_list012)
  case 1
  show ?case by (simp add: extract_Nil)
next
  case (2 x)
  then show ?case by (cases ys) (auto simp: extract_Nil extract_Cons)
next
  case (3 x y zs)
  then show ?case by (simp add: extract_Cons)
qed

lemma filter_append:
  "ys = [] \<or> type (hd ys) \<noteq> js ''list'' \<Longrightarrow>
   filterOutAllSourcesSections (xs @ ys) =
     filterOutAllSourcesSections xs @ filterOutAllSourcesSections ys"
proof (induction xs rule: induct_list012)
  case 1
  show ?case by (simp add: filter_Nil)
next
  case (2 x)
  then show ?case by (cases ys) (auto simp: filter_Nil filter_Cons)
next
  case (3 x y zs)
  then show ?case by (simp add: filter_Cons)
qed

lemma extract_append_last:
  "xs = [] \<or> \<not> sourcesTrigger (last xs) \<Longrightarrow>
   extractAllSourcesFromTokens (xs @ ys) =
     extractAllSourcesFromTokens xs @ extractAllSourcesFromTokens ys"
proof (induction xs rule: induct_list012)
  case 1
  show ?case by (simp add: extract_Nil)
next
  case (2 x)
  then show ?case by (cases ys) (auto simp: extract_Nil extract_Cons)
next
  case (3 x y zs)
  then show ?case by (cases zs) (auto simp add: extract_Cons extract_Nil dest: trigger_not_list)
qed

lemma filter_append_last:
  "xs = [] \<or> \<not> sourcesTrigger (last xs) \<Longrightarrow>
   filterOutAllSourcesSections (xs @ ys) =
     filterOutAllSourcesSections xs @ filterOutAllSourcesSections ys"
proof (induction xs rule: induct_list012)
  case 1
  show ?case by (simp add: filter_Nil)
next
  case (2 x)
  then show ?case by (cases ys) (auto simp: filter_Nil filter_Cons)
next
  case (3 x y zs)
  then show ?case by (cases zs) (auto simp add: filter_Cons filter_Nil dest: trigger_not_list)
qed


lemma linkRegex_link:
  assumes "T \<noteq> []" "0x5D \<notin> set T" "U \<noteq> []" "0x29 \<notin> set U"
  shows "linkRegex (js ''['' @ T @ js '']('' @ U @ js '')'') = Some (T, U)"
proof -
  have l: "js ''['' = [0x5B]" "js '']('' = [0x5D, 0x28]" "js '')'' = [0x29]"
    by (simp_all add: js_def)
  have t1: "takeWhile (\<lambda>c. c \<noteq> 0x5D) (T @ 0x5D # r) = T" for r
    using assms(2) by (induction T) auto
  have d1: "dropWhile (\<lambda>c. c \<noteq> 0x5D) (T @ 0x5D # r) = 0x5D # r" for r
    using assms(2) by (induction T) auto
  have t2: "takeWhile (\<lambda>c. c \<noteq> 0x29) (U @ [0x29]) = U"
    using assms(4) by (induction U) auto
  have d2: "dropWhile (\<lambda>c. c \<noteq> 0x29) (U @ [0x29]) = [0x29]"
    using assms(4) by (induction U) auto
  show ?thesis
    using assms(1,3) by (simp add: linkRegex_def l t1 d1 t2 d2)
qed

lemma itemsLoop_link:
  assumes "markdownLinkItem item T U"
  shows "itemsLoop (item # rest) [] = \<lparr>title = T, url = U\<rparr> # itemsLoop rest []"
proof (cases "find (\<lambda>t. type t = js ''link'') (case tokens item of Some ts \<Rightarrow> ts | None \<Rightarrow> [])")
  case None
  with assms have tx: "text' item = js ''['' @ T @ js '']('' @ U @ js '')''"
    and c: "T \<noteq> []" "0x5D \<notin> set T" "U \<noteq> []" "0x29 \<notin> set U"
    by (simp_all add: markdownLinkItem_def)
  have ne: "text' item \<noteq> []" using tx by (simp add: js_def)
  have "linkRegex (text' item) = Some (T, U)"
    unfolding tx using c by (rule linkRegex_link)
  with None ne show ?thesis
    using itemsLoop_append[of rest "[\<lparr>title = T, url = U\<rparr>]" "[]"] by simp
next
  case (Some linkToken)
  with assms have "text' linkToken = T" "href linkToken = U"
    by (simp_all add: markdownLinkItem_def)
  with Some show ?thesis
    using itemsLoop_append[of rest "[\<lparr>title = T, url = U\<rparr>]" "[]"] by simp
qed

lemma itemsLoop_links:
  "list_all2 (\<lambda>item (T, U). markdownLinkItem item T U) its links \<Longrightarrow>
   itemsLoop its [] = map (\<lambda>(T, U). \<lparr>title = T, url = U\<rparr>) links"
proof (induction its links rule: list_all2_induct)
  case Nil
  show ?case by simp
next
  case (Cons item its TU links)
  then show ?case by (cases TU) (simp add: itemsLoop_link del: itemsLoop.simps)
qed

lemma kept_pair:
  "keptByScan (prev, t) =
     (\<not> sourcesTrigger t \<and>
      \<not> (type t = js ''list'' \<and> (case prev of Some q \<Rightarrow> sourcesTrigger q | None \<Rightarrow> False)))"
  by (simp add: keptByScan_def)

lemma filter_zip:
  "(case q of Some q' \<Rightarrow> \<not> sourcesTrigger q' | None \<Rightarrow> True) \<Longrightarrow>
   filterOutAllSourcesSections ts = map snd (filter keptByScan (zip (q # map Some ts) ts))"
proof (induction ts arbitrary: q rule: induct_list012)
  case 1
  show ?case by (simp add: filter_Nil)
next
  case (2 x)
  then show ?case
    by (auto simp: filter_Cons filter_Nil kept_pair split: option.splits)
next
  case (3 x y zs)
  have a: "filterOutAllSourcesSections zs = map snd (filter keptByScan (zip (Some y # map Some zs) zs))"
    if "\<not> sourcesTrigger y"
    using 3(1)[of "Some y"] that by simp
  have b: "filterOutAllSourcesSections (y # zs) = map snd (filter keptByScan (zip (Some x # map Some (y # zs)) (y # zs)))"
    if "\<not> sourcesTrigger x"
    using 3(2)[of "Some x"] that by simp
  have c: "filterOutAllSourcesSections (y # zs) = map snd (filter keptByScan (zip (None # map Some (y # zs)) (y # zs)))"
    using 3(2)[of None] by simp
  show ?case
  proof (cases "sourcesTrigger x")
    case False
    with b 3(3) show ?thesis
      by (auto simp: filter_Cons kept_pair split: option.splits)
  next
    case True
    show ?thesis
    proof (cases "type y = js ''list''")
      case l: True
      then have ny: "\<not> sourcesTrigger y" using trigger_not_list by blast
      from a[OF ny] True l ny show ?thesis
        by (simp add: filter_Cons kept_pair)
    next
      case False
      with c True show ?thesis
        by (simp add: filter_Cons kept_pair)
    qed
  qed
qed

lemma itemsLoop_view:
  "map itemView its = map itemView its' \<Longrightarrow> itemsLoop its acc = itemsLoop its' acc"
proof (induction its arbitrary: its' acc)
  case Nil
  then show ?case by simp
next
  case (Cons item rest)
  then obtain item' rest' where i: "its' = item' # rest'" "itemView item = itemView item'"
    "map itemView rest = map itemView rest'"
    by (auto simp: map_eq_Cons_conv dest: sym)
  from i(2) have v: "text' item = text' item'"
    "map_option (\<lambda>linkToken. (text' linkToken, href linkToken))
       (find (\<lambda>t. type t = js ''link'') (case tokens item of Some ts \<Rightarrow> ts | None \<Rightarrow> [])) =
     map_option (\<lambda>linkToken. (text' linkToken, href linkToken))
       (find (\<lambda>t. type t = js ''link'') (case tokens item' of Some ts \<Rightarrow> ts | None \<Rightarrow> []))"
    by (simp_all add: itemView_def)
  show ?case
  proof (cases "find (\<lambda>t. type t = js ''link'') (case tokens item of Some ts \<Rightarrow> ts | None \<Rightarrow> [])")
    case None
    with v(2) have n: "find (\<lambda>t. type t = js ''link'')
        (case tokens item' of Some ts \<Rightarrow> ts | None \<Rightarrow> []) = None"
      by simp
    show ?thesis
      unfolding i(1) using None n v(1) Cons.IH[OF i(3)]
      by (simp split: option.splits prod.splits)
  next
    case (Some a)
    with v(2) obtain b where b: "find (\<lambda>t. type t = js ''link'')
        (case tokens item' of Some ts \<Rightarrow> ts | None \<Rightarrow> []) = Some b"
      "text' a = text' b" "href a = href b"
      by (cases "find (\<lambda>t. type t = js ''link'')
        (case tokens item' of Some ts \<Rightarrow> ts | None \<Rightarrow> [])") auto
    show ?thesis
      unfolding i(1) using Some b Cons.IH[OF i(3)] by simp
  qed
qed

lemma extract_pair:
  assumes "sourcesTrigger p" "type l = js ''list''"
  shows "extractAllSourcesFromTokens (xs @ p # l # ys) =
           extractAllSourcesFromTokens xs @ itemsLoop (items l) [] @
           extractAllSourcesFromTokens ys"
proof -
  have hd: "p # l # ys = [] \<or> type (hd (p # l # ys)) \<noteq> js ''list''"
    using assms(1) trigger_not_list by simp
  show ?thesis
    using extract_append[OF hd, of xs] assms by (simp add: extract_Cons)
qed

section \<open>The claims on the extraction pass\<close>

text \<open>
  Claim C1, as the code has it. A trigger paragraph \<open>p\<close> right before a list \<open>l\<close> whose
  items are the markdown links \<open>links\<close> (each item with a \<open>link\<close> child of its own, or with
  the text \<open>[T](U)\<close> where \<open>T\<close> has no \<open>]\<close> and \<open>U\<close> no \<open>)\<close>) adds exactly one record per item,
  in item order, between the records of the tokens before and of the tokens after;
  \<open>filterOutAllSourcesSections\<close> drops \<open>p\<close> and \<open>l\<close> there. Over a whole sequence the filter
  keeps, in order, exactly the tokens that are neither a trigger paragraph nor a list right
  after one: besides the matched pairs it also drops a trigger paragraph with no list.
\<close>

theorem C1_sources_pairs:
  assumes "sourcesTrigger p"
    and "type l = js ''list''"
    and "list_all2 (\<lambda>item (T, U). markdownLinkItem item T U) (items l) links"
  shows "extractAllSourcesFromTokens (xs @ p # l # ys) =
           extractAllSourcesFromTokens xs @ map (\<lambda>(T, U). \<lparr>title = T, url = U\<rparr>) links @
           extractAllSourcesFromTokens ys
         \<and> length links = length (items l)
         \<and> filterOutAllSourcesSections (xs @ p # l # ys) =
           filterOutAllSourcesSections xs @ filterOutAllSourcesSections ys
         \<and> filterOutAllSourcesSections toks =
           map snd (filter keptByScan (zip (None # map Some toks) toks))"
proof -
  have hd: "p # l # ys = [] \<or> type (hd (p # l # ys)) \<noteq> js ''list''"
    using assms(1) trigger_not_list by simp
  have e: "extractAllSourcesFromTokens (p # l # ys) =
             map (\<lambda>(T, U). \<lparr>title = T, url = U\<rparr>) links @ extractAllSourcesFromTokens ys"
    using assms by (simp add: extract_Cons itemsLoop_links)
  have f: "filterOutAllSourcesSections (p # l # ys) = filterOutAllSourcesSections ys"
    using assms by (simp add: filter_Cons)
  have n: "length links = length (items l)"
    using assms(3) by (simp add: list_all2_lengthD)
  have z: "filterOutAllSourcesSections toks =
             map snd (filter keptByScan (zip (None # map Some toks) toks))"
    using filter_zip[of None toks] by simp
  show ?thesis
    using extract_append[OF hd, of xs] filter_append[OF hd, of xs] e f n z by simp
qed

text \<open>
  Claim C2, as the code has it. A trigger paragraph \<open>p\<close> that no list follows gives no
  record: the records are those of the tokens before and after it.
  \<open>filterOutAllSourcesSections\<close> drops \<open>p\<close> and goes on with the next token. The rendered
  sequence \<open>filteredTokens\<close> therefore keeps \<open>p\<close> when the whole sequence gives no record, and
  loses it when some other block gives one.
\<close>

theorem C2_lone_trigger:
  assumes "sourcesTrigger p"
    and "ys = [] \<or> type (hd ys) \<noteq> js ''list''"
  shows "extractAllSourcesFromTokens (xs @ p # ys) =
           extractAllSourcesFromTokens xs @ extractAllSourcesFromTokens ys
         \<and> filterOutAllSourcesSections (xs @ p # ys) =
           filterOutAllSourcesSections xs @ filterOutAllSourcesSections ys
         \<and> filteredTokens (xs @ p # ys) =
           (if extractAllSourcesFromTokens xs @ extractAllSourcesFromTokens ys = []
            then xs @ p # ys
            else filterOutAllSourcesSections xs @ filterOutAllSourcesSections ys)"
proof -
  have hd: "p # ys = [] \<or> type (hd (p # ys)) \<noteq> js ''list''"
    using assms(1) trigger_not_list by simp
  have e: "extractAllSourcesFromTokens (p # ys) = extractAllSourcesFromTokens ys"
    using assms by (auto simp: extract_Cons)
  have f: "filterOutAllSourcesSections (p # ys) = filterOutAllSourcesSections ys"
    using assms by (auto simp: filter_Cons)
  have e': "extractAllSourcesFromTokens (xs @ p # ys) =
           extractAllSourcesFromTokens xs @ extractAllSourcesFromTokens ys"
    using extract_append[OF hd, of xs] e by simp
  have f': "filterOutAllSourcesSections (xs @ p # ys) =
           filterOutAllSourcesSections xs @ filterOutAllSourcesSections ys"
    using filter_append[OF hd, of xs] f by simp
  show ?thesis
    unfolding filteredTokens_def extractedSources_def e' f' by simp
qed

text \<open>
  Claim C3. On a sequence with no trigger paragraph, \<open>filterOutAllSourcesSections\<close> returns
  the sequence itself and \<open>extractAllSourcesFromTokens\<close> returns no record.
\<close>

theorem C3_no_trigger:
  assumes "\<forall>t \<in> set toks. \<not> sourcesTrigger t"
  shows "filterOutAllSourcesSections toks = toks \<and> extractAllSourcesFromTokens toks = []"
  using assms by (induction toks) (simp_all add: filter_Nil filter_Cons extract_Nil extract_Cons)

text \<open>
  Claim C4, as the code has it. Both scans read the top level only. A top-level token \<open>t\<close>
  that the scan does not itself match (it is no trigger paragraph, and no list right after
  one) gives no record and is kept as it is, whatever its child sequences hold: a sources
  paragraph and its list inside a blockquote, or inside an item of such a list, are neither
  extracted nor removed. What the filter returns is a subsequence of its input, so every
  token it keeps comes back with its children unchanged. Of the list right after a trigger
  paragraph the extraction reads only what \<open>itemView\<close> shows of each item, never an item's
  deeper children: two lists whose items look the same there give the same records. The
  filter removes that list with all it holds, a sources pair nested in one of its items
  included.
\<close>

theorem C4_top_level_only:
  assumes "\<not> sourcesTrigger t"
    and "type t \<noteq> js ''list'' \<or> xs = [] \<or> \<not> sourcesTrigger (last xs)"
  shows "extractAllSourcesFromTokens (xs @ t # ys) =
           extractAllSourcesFromTokens xs @ extractAllSourcesFromTokens ys
         \<and> filterOutAllSourcesSections (xs @ t # ys) =
           filterOutAllSourcesSections xs @ t # filterOutAllSourcesSections ys
         \<and> subseq (filterOutAllSourcesSections toks) toks
         \<and> (sourcesTrigger p \<and> type l = js ''list'' \<and> type l' = js ''list'' \<and>
            map itemView (items l) = map itemView (items l') \<longrightarrow>
            extractAllSourcesFromTokens (zs @ p # l # ws) =
              extractAllSourcesFromTokens (zs @ p # l' # ws))
         \<and> (sourcesTrigger p \<and> type l = js ''list'' \<longrightarrow>
            filterOutAllSourcesSections (zs @ p # l # ws) =
              filterOutAllSourcesSections zs @ filterOutAllSourcesSections ws)"
proof -
  have e: "extractAllSourcesFromTokens (t # ys) = extractAllSourcesFromTokens ys"
    using assms(1) by (simp add: extract_Cons)
  have f: "filterOutAllSourcesSections (t # ys) = t # filterOutAllSourcesSections ys"
    using assms(1) by (simp add: filter_Cons)
  have ef: "extractAllSourcesFromTokens (xs @ t # ys) =
             extractAllSourcesFromTokens xs @ extractAllSourcesFromTokens (t # ys)
           \<and> filterOutAllSourcesSections (xs @ t # ys) =
             filterOutAllSourcesSections xs @ filterOutAllSourcesSections (t # ys)"
  proof (cases "type t \<noteq> js ''list''")
    case True
    then have hd: "t # ys = [] \<or> type (hd (t # ys)) \<noteq> js ''list''" by simp
    show ?thesis using extract_append[OF hd, of xs] filter_append[OF hd, of xs] by simp
  next
    case False
    with assms(2) have la: "xs = [] \<or> \<not> sourcesTrigger (last xs)" by simp
    show ?thesis using extract_append_last[OF la] filter_append_last[OF la] by simp
  qed
  have s: "subseq (filterOutAllSourcesSections toks) toks"
  proof (induction toks rule: induct_list012)
    case 1
    show ?case by (simp add: filter_Nil)
  next
    case (2 x)
    show ?case by (simp add: filter_Cons filter_Nil)
  next
    case (3 x y zs)
    then show ?case by (auto simp: filter_Cons intro: subseq_Cons')
  qed
  have v: "extractAllSourcesFromTokens (zs @ p # l # ws) =
             extractAllSourcesFromTokens (zs @ p # l' # ws)"
    if "sourcesTrigger p" "type l = js ''list''" "type l' = js ''list''"
      "map itemView (items l) = map itemView (items l')"
    using extract_pair[OF that(1,2)] extract_pair[OF that(1,3)] itemsLoop_view[OF that(4)]
    by simp
  have r: "filterOutAllSourcesSections (zs @ p # l # ws) =
             filterOutAllSourcesSections zs @ filterOutAllSourcesSections ws"
    if "sourcesTrigger p" "type l = js ''list''"
  proof -
    have hd: "p # l # ws = [] \<or> type (hd (p # l # ws)) \<noteq> js ''list''"
      using that(1) trigger_not_list by simp
    show ?thesis
      using filter_append[OF hd, of zs] that by (simp add: filter_Cons)
  qed
  show ?thesis using ef e f s v r by simp
qed

text \<open>
  Claim C5. When \<open>extractAllSourcesFromTokens\<close> returns no record, \<open>filteredTokens\<close> is the
  input sequence itself: \<open>filterOutAllSourcesSections\<close> is not applied, so a token the filter
  alone would drop stays.
\<close>

theorem C5_no_records_bypass:
  assumes "extractAllSourcesFromTokens toks = []"
  shows "filteredTokens toks = toks"
  using assms by (simp add: filteredTokens_def extractedSources_def)


text \<open>The theorem of C1 at a paragraph, the sources pair with two link items, a paragraph.\<close>

theorem C1_sources_pairs_witness:
  "sourcesTrigger sourcesParagraph \<and> type linkList = js ''list'' \<and>
   list_all2 (\<lambda>item (T, U). markdownLinkItem item T U) (items linkList)
     [(js ''Intro'', js ''https://youtu.be/dQw4w9WgXcQ''),
      (js ''Docs'', js ''https://example.org/docs'')] \<and>
   extractAllSourcesFromTokens [plainParagraph, sourcesParagraph, linkList, plainParagraph] =
     [\<lparr>title = js ''Intro'', url = js ''https://youtu.be/dQw4w9WgXcQ''\<rparr>,
      \<lparr>title = js ''Docs'', url = js ''https://example.org/docs''\<rparr>] \<and>
   filterOutAllSourcesSections [plainParagraph, sourcesParagraph, linkList, plainParagraph] =
     [plainParagraph, plainParagraph]"
proof -
  have h1: "sourcesTrigger sourcesParagraph" by code_simp
  have h2: "type linkList = js ''list''" by code_simp
  have h3: "list_all2 (\<lambda>item (T, U). markdownLinkItem item T U) (items linkList)
     [(js ''Intro'', js ''https://youtu.be/dQw4w9WgXcQ''),
      (js ''Docs'', js ''https://example.org/docs'')]" by code_simp
  have e: "extractAllSourcesFromTokens [plainParagraph] = []" by code_simp
  have f: "filterOutAllSourcesSections [plainParagraph] = [plainParagraph]" by code_simp
  have c: "extractAllSourcesFromTokens [plainParagraph, sourcesParagraph, linkList, plainParagraph] =
     [\<lparr>title = js ''Intro'', url = js ''https://youtu.be/dQw4w9WgXcQ''\<rparr>,
      \<lparr>title = js ''Docs'', url = js ''https://example.org/docs''\<rparr>] \<and>
   filterOutAllSourcesSections [plainParagraph, sourcesParagraph, linkList, plainParagraph] =
     [plainParagraph, plainParagraph]"
    using C1_sources_pairs[OF h1 h2 h3, of "[plainParagraph]" "[plainParagraph]" "[]"] e f by simp
  show ?thesis using h1 h2 h3 c by blast
qed

text \<open>
  Claim C1 as stated fails: the one item \<open>[Foo](https://en.wikipedia.org/wiki/Foo_(bar))\<close>
  after a trigger paragraph gives no record, and the filter also removes a trigger paragraph
  that belongs to no pair.
\<close>

theorem C1_counterexample:
  "extractAllSourcesFromTokens [sourcesParagraph, parenList] = [] \<and>
   filterOutAllSourcesSections [sourcesParagraph, plainParagraph, sourcesParagraph, linkList] =
     [plainParagraph]"
  by code_simp

text \<open>The theorem of C2 at a lone trigger paragraph before a plain paragraph.\<close>

theorem C2_lone_trigger_witness:
  "sourcesTrigger sourcesParagraph \<and>
   ([plainParagraph] = [] \<or> type (hd [plainParagraph]) \<noteq> js ''list'') \<and>
   extractAllSourcesFromTokens [sourcesParagraph, plainParagraph] = [] \<and>
   filterOutAllSourcesSections [sourcesParagraph, plainParagraph] = [plainParagraph] \<and>
   filteredTokens [sourcesParagraph, plainParagraph] = [sourcesParagraph, plainParagraph]"
proof -
  have h1: "sourcesTrigger sourcesParagraph" by code_simp
  have h2: "[plainParagraph] = [] \<or> type (hd [plainParagraph]) \<noteq> js ''list''" by code_simp
  have e0: "extractAllSourcesFromTokens [] = []" by code_simp
  have f0: "filterOutAllSourcesSections [] = []" by code_simp
  have e: "extractAllSourcesFromTokens [plainParagraph] = []" by code_simp
  have f: "filterOutAllSourcesSections [plainParagraph] = [plainParagraph]" by code_simp
  have c: "extractAllSourcesFromTokens [sourcesParagraph, plainParagraph] = [] \<and>
   filterOutAllSourcesSections [sourcesParagraph, plainParagraph] = [plainParagraph] \<and>
   filteredTokens [sourcesParagraph, plainParagraph] = [sourcesParagraph, plainParagraph]"
    using C2_lone_trigger[OF h1 h2, of "[]"] e0 f0 e f by simp
  show ?thesis using h1 h2 c by blast
qed

text \<open>
  Claim C2 as stated fails: the first paragraph is a trigger followed by a paragraph, not a
  list; the later sources pair gives records, so the filter runs and the first paragraph is
  gone from \<open>filteredTokens\<close>.
\<close>

theorem C2_counterexample:
  "sourcesTrigger sourcesParagraph \<and> type plainParagraph \<noteq> js ''list'' \<and>
   extractAllSourcesFromTokens [sourcesParagraph, plainParagraph, sourcesParagraph, linkList] =
     [\<lparr>title = js ''Intro'', url = js ''https://youtu.be/dQw4w9WgXcQ''\<rparr>,
      \<lparr>title = js ''Docs'', url = js ''https://example.org/docs''\<rparr>] \<and>
   filteredTokens [sourcesParagraph, plainParagraph, sourcesParagraph, linkList] =
     [plainParagraph]"
  by code_simp

text \<open>The theorem of C3 at a plain paragraph followed by a list of links.\<close>

theorem C3_no_trigger_witness:
  "\<not> sourcesTrigger plainParagraph \<and> \<not> sourcesTrigger linkList \<and>
   filterOutAllSourcesSections [plainParagraph, linkList] = [plainParagraph, linkList] \<and>
   extractAllSourcesFromTokens [plainParagraph, linkList] = []"
proof -
  have p: "\<not> sourcesTrigger plainParagraph" by code_simp
  have l: "\<not> sourcesTrigger linkList" by code_simp
  have h: "\<forall>t \<in> set [plainParagraph, linkList]. \<not> sourcesTrigger t"
    using p l by simp
  show ?thesis using p l C3_no_trigger[OF h] by blast
qed

text \<open>The theorem of C4 at a blockquote and at a list item that hold a sources pair, the
  list once on its own and once right after a trigger paragraph.\<close>

theorem C4_top_level_only_witness:
  "\<not> sourcesTrigger nestedQuote \<and> type nestedQuote \<noteq> js ''list'' \<and>
   \<not> sourcesTrigger nestedList \<and> \<not> sourcesTrigger (last [plainParagraph]) \<and>
   extractAllSourcesFromTokens [sourcesParagraph, nestedQuote, plainParagraph] = [] \<and>
   filterOutAllSourcesSections [sourcesParagraph, nestedQuote, plainParagraph] =
     [nestedQuote, plainParagraph] \<and>
   extractAllSourcesFromTokens [plainParagraph, nestedList] = [] \<and>
   filterOutAllSourcesSections [plainParagraph, nestedList] = [plainParagraph, nestedList] \<and>
   sourcesTrigger sourcesParagraph \<and> type nestedList = js ''list'' \<and>
   type flatList = js ''list'' \<and> map itemView (items nestedList) = map itemView (items flatList) \<and>
   extractAllSourcesFromTokens [sourcesParagraph, nestedList] = [] \<and>
   filterOutAllSourcesSections [sourcesParagraph, nestedList] = []"
proof -
  have q1: "\<not> sourcesTrigger nestedQuote" by code_simp
  have q2: "type nestedQuote \<noteq> js ''list''" by code_simp
  have l1: "\<not> sourcesTrigger nestedList" by code_simp
  have l2: "\<not> sourcesTrigger (last [plainParagraph])" by code_simp
  have q2': "type nestedQuote \<noteq> js ''list'' \<or> [sourcesParagraph] = [] \<or>
    \<not> sourcesTrigger (last [sourcesParagraph])" using q2 by blast
  have l2': "type nestedList \<noteq> js ''list'' \<or> [plainParagraph] = [] \<or>
    \<not> sourcesTrigger (last [plainParagraph])" using l2 by blast
  have v1: "sourcesTrigger sourcesParagraph" by code_simp
  have v2: "type nestedList = js ''list''" by code_simp
  have v3: "type flatList = js ''list''" by code_simp
  have v4: "map itemView (items nestedList) = map itemView (items flatList)" by code_simp
  have e0: "extractAllSourcesFromTokens [] = []" by code_simp
  have f0: "filterOutAllSourcesSections [] = []" by code_simp
  have e: "extractAllSourcesFromTokens [plainParagraph] = []" by code_simp
  have f: "filterOutAllSourcesSections [plainParagraph] = [plainParagraph]" by code_simp
  have es: "extractAllSourcesFromTokens [sourcesParagraph] = []" by code_simp
  have fs: "filterOutAllSourcesSections [sourcesParagraph] = []" by code_simp
  have ef: "extractAllSourcesFromTokens [sourcesParagraph, flatList] = []" by code_simp
  note q = C4_top_level_only[OF q1 q2', of "[plainParagraph]" "[]" sourcesParagraph nestedList
      flatList "[]" "[]"]
  note l = C4_top_level_only[OF l1 l2', of "[]" "[]" sourcesParagraph nestedList flatList
      "[]" "[]"]
  have c1: "extractAllSourcesFromTokens [sourcesParagraph, nestedQuote, plainParagraph] = [] \<and>
   filterOutAllSourcesSections [sourcesParagraph, nestedQuote, plainParagraph] =
     [nestedQuote, plainParagraph]"
    using conjunct1[OF q] conjunct1[OF conjunct2[OF q]] e f es fs by simp
  have c2: "extractAllSourcesFromTokens [plainParagraph, nestedList] = [] \<and>
   filterOutAllSourcesSections [plainParagraph, nestedList] = [plainParagraph, nestedList]"
    using conjunct1[OF l] conjunct1[OF conjunct2[OF l]] e f e0 f0 by simp
  have c3: "extractAllSourcesFromTokens [sourcesParagraph, nestedList] = []"
    using conjunct1[OF conjunct2[OF conjunct2[OF conjunct2[OF l]]]] v1 v2 v3 v4 ef by simp
  have c4: "filterOutAllSourcesSections [sourcesParagraph, nestedList] = []"
    using conjunct2[OF conjunct2[OF conjunct2[OF conjunct2[OF l]]]] v1 v2 f0 by simp
  show ?thesis using q1 q2 l1 l2 v1 v2 v3 v4 c1 c2 c3 c4 by blast
qed

text \<open>
  Claim C4 as stated fails: the list right after a trigger paragraph is removed with the
  sources paragraph and the list that one of its items holds.
\<close>

theorem C4_counterexample:
  "sourcesTrigger sourcesParagraph \<and> type nestedList = js ''list'' \<and>
   items nestedList = [mkListItem (js ''nested'') [sourcesParagraph, linkList]] \<and>
   filterOutAllSourcesSections [sourcesParagraph, nestedList] = []"
  by code_simp

text \<open>The theorem of C5 at a lone trigger paragraph, which the filter alone drops.\<close>

theorem C5_no_records_bypass_witness:
  "extractAllSourcesFromTokens [sourcesParagraph, plainParagraph] = [] \<and>
   filterOutAllSourcesSections [sourcesParagraph, plainParagraph] = [plainParagraph] \<and>
   filteredTokens [sourcesParagraph, plainParagraph] = [sourcesParagraph, plainParagraph]"
proof -
  have h: "extractAllSourcesFromTokens [sourcesParagraph, plainParagraph] = []" by code_simp
  have f: "filterOutAllSourcesSections [sourcesParagraph, plainParagraph] = [plainParagraph]"
    by code_simp
  show ?thesis using h f C5_no_records_bypass[OF h] by blast
qed

section \<open>The each block, token by token\<close>

lemma eachToken_append:
  "eachToken e p i (xs @ ys) =
     (fst (eachToken e p i xs) @ fst (eachToken e p (i + length xs) ys),
      snd (eachToken e p i xs) @ snd (eachToken e p (i + length xs) ys))"
  by (induction xs arbitrary: i) (simp_all add: case_prod_beta)

lemma renderToken_unknown:
  assumes "type u \<notin> set dispatchedTypes"
  shows "renderToken e p u k = ([UndefinedText], [LogUnknownToken u])"
  using assms by (simp add: renderToken_def dispatchedTypes_def)

lemma heading_tag:
  assumes "1 \<le> d" "d \<le> 6"
  shows "js ''h'' @ integerText d \<in> set headingTags"
proof -
  have t: "js ''h'' @ integerText 1 \<in> set headingTags"
    "js ''h'' @ integerText 2 \<in> set headingTags"
    "js ''h'' @ integerText 3 \<in> set headingTags"
    "js ''h'' @ integerText 4 \<in> set headingTags"
    "js ''h'' @ integerText 5 \<in> set headingTags"
    "js ''h'' @ integerText 6 \<in> set headingTags"
    by code_simp+
  from assms have "d = 1 \<or> d = 2 \<or> d = 3 \<or> d = 4 \<or> d = 5 \<or> d = 6" by arith
  with t show ?thesis by blast
qed

lemma decimal_nonempty: "decimal n \<noteq> []"
  by (subst decimal.simps) simp

lemma decimal_long:
  assumes "10 \<le> n"
  shows "2 \<le> length (decimal n)"
proof -
  obtain c cs where p: "decimal (n div 10) = c # cs"
    using decimal_nonempty[of "n div 10"] by (cases "decimal (n div 10)") auto
  have "decimal n = decimal (n div 10) @ [0x30 + of_nat (n mod 10)]"
    using assms by (subst decimal.simps) simp
  then show ?thesis by (simp add: p)
qed

lemma heading_tag_iff:
  "js ''h'' @ integerText d \<in> set headingTags \<longleftrightarrow> 1 \<le> d \<and> d \<le> 6"
proof
  assume "1 \<le> d \<and> d \<le> 6"
  then show "js ''h'' @ integerText d \<in> set headingTags" using heading_tag by blast
next
  assume h: "js ''h'' @ integerText d \<in> set headingTags"
  have l2: "length t = 2" if "t \<in> set headingTags" for t
    using that by (auto simp: headingTags_def js_def)
  have l: "length (js ''h'' @ integerText d) = 2" using h l2 by blast
  have hl: "length (js ''h'' @ integerText d) = Suc (length (integerText d))"
    by (simp add: js_def)
  show "1 \<le> d \<and> d \<le> 6"
  proof (rule ccontr)
    assume n: "\<not> (1 \<le> d \<and> d \<le> 6)"
    consider "d < 0" | "d = 0" | "d = 7" | "d = 8" | "d = 9" | "10 \<le> d"
      using n by arith
    then show False
    proof cases
      case 1
      then have "length (integerText d) = Suc (length (decimal (nat (- d))))"
        by (simp add: integerText_def js_def)
      moreover obtain c cs where "decimal (nat (- d)) = c # cs"
        using decimal_nonempty[of "nat (- d)"] by (cases "decimal (nat (- d))") auto
      ultimately show False using l hl by simp
    next
      case 2
      have "js ''h'' @ integerText 0 \<notin> set headingTags" by code_simp
      with h 2 show False by simp
    next
      case 3
      have "js ''h'' @ integerText 7 \<notin> set headingTags" by code_simp
      with h 3 show False by simp
    next
      case 4
      have "js ''h'' @ integerText 8 \<notin> set headingTags" by code_simp
      with h 4 show False by simp
    next
      case 5
      have "js ''h'' @ integerText 9 \<notin> set headingTags" by code_simp
      with h 5 show False by simp
    next
      case 6
      then have "integerText d = decimal (nat d)" by (simp add: integerText_def)
      moreover have "2 \<le> length (decimal (nat d))" using 6 decimal_long[of "nat d"] by simp
      ultimately show False using l hl by simp
    qed
  qed
qed

lemma unknown_not_matched:
  assumes "type u \<notin> set dispatchedTypes"
  shows "\<not> sourcesTrigger u" "type u \<noteq> js ''list''"
proof -
  have "js ''paragraph'' \<in> set dispatchedTypes" "js ''list'' \<in> set dispatchedTypes"
    by (simp_all add: dispatchedTypes_def)
  with assms show "\<not> sourcesTrigger u" "type u \<noteq> js ''list''"
    using trigger_type by metis+
qed

section \<open>The claims on the template\<close>

text \<open>
  Claim C6. For a table whose header cells have the texts \<open>A\<close> and \<open>B\<close> and whose one row
  has two cells that flatten (their child tokens' texts joined) to \<open>x,y\<close> and
  \<open>He said "hi"\<close>, the handler saves the byte order mark followed by
  \<open>"A","B"\<close>, a newline and \<open>"x,y","He said ""hi"""\<close>, under the name
  \<open>table-{id}-{tokenIdx}.csv\<close>.
\<close>

theorem C6_csv_export:
  assumes \<open>map text' (header token) = [js ''A'', js ''B'']\<close>
    and \<open>map (map (\<lambda>cell. map_option (\<lambda>ts. join [] (map text' ts)) (tokens cell))) (rows token) =
           [[Some (js ''x,y''), Some (js ''He said "hi"'')]]\<close>
  shows \<open>exportTableToCSVHandler i token tokenIdx =
           Inr \<lparr>content = bom @ js ''"A","B"\<newline>"x,y","He said ""hi"""'',
                mimeType = js ''text/csv;charset=UTF-8'',
                filename = js ''table-'' @ i @ js ''-'' @ decimal tokenIdx @ js ''.csv''\<rparr>\<close>
proof -
  obtain h1 h2 where h: "header token = [h1, h2]" "text' h1 = js ''A''" "text' h2 = js ''B''"
    using assms(1) by (auto simp: map_eq_Cons_conv)
  obtain c1 c2 where r: "rows token = [[c1, c2]]"
    and c1: "map_option (\<lambda>ts. join [] (map text' ts)) (tokens c1) = Some (js ''x,y'')"
    and c2: \<open>map_option (\<lambda>ts. join [] (map text' ts)) (tokens c2) = Some (js ''He said "hi"'')\<close>
    using assms(2) by (auto simp: map_eq_Cons_conv)
  have f1: \<open>cellField c1 = Inr (js ''"x,y"'')\<close>
    using c1 by (auto simp: cellField_def quoted_def replaceQuotes_def js_def)
  have f2: \<open>cellField c2 = Inr (js ''"He said ""hi"""'')\<close>
    using c2 by (auto simp: cellField_def quoted_def replaceQuotes_def js_def)
  have q: \<open>quoted (js ''A'') = js ''"A"''\<close> \<open>quoted (js ''B'') = js ''"B"''\<close>
    by (simp_all add: quoted_def replaceQuotes_def js_def)
  show ?thesis
    by (simp add: exportTableToCSVHandler_def h r f1 f2 q) (simp add: js_def)
qed

text \<open>
  The theorem of C6 at a table of that shape, the second cell made of two text tokens, for
  the id \<open>msg\<close> and the token index 3.
\<close>

theorem C6_csv_export_witness:
  \<open>map text' (header csvTable) = [js ''A'', js ''B''] \<and>
   map (map (\<lambda>cell. map_option (\<lambda>ts. join [] (map text' ts)) (tokens cell))) (rows csvTable) =
     [[Some (js ''x,y''), Some (js ''He said "hi"'')]] \<and>
   exportTableToCSVHandler (js ''msg'') csvTable 3 =
     Inr \<lparr>content = [0xFEFF] @ js ''"A","B"\<newline>"x,y","He said ""hi"""'',
          mimeType = js ''text/csv;charset=UTF-8'',
          filename = js ''table-msg-3.csv''\<rparr>\<close>
proof -
  have h1: \<open>map text' (header csvTable) = [js ''A'', js ''B'']\<close> by code_simp
  have h2: \<open>map (map (\<lambda>cell. map_option (\<lambda>ts. join [] (map text' ts)) (tokens cell))) (rows csvTable) =
     [[Some (js ''x,y''), Some (js ''He said "hi"'')]]\<close> by code_simp
  have d: "decimal 3 = js ''3''" by code_simp
  have c: \<open>exportTableToCSVHandler (js ''msg'') csvTable 3 =
     Inr \<lparr>content = [0xFEFF] @ js ''"A","B"\<newline>"x,y","He said ""hi"""'',
          mimeType = js ''text/csv;charset=UTF-8'',
          filename = js ''table-msg-3.csv''\<rparr>\<close>
    using C6_csv_export[OF h1 h2, of "js ''msg''" 3] d by (simp add: bom_def js_def)
  show ?thesis using h1 h2 c by blast
qed

text \<open>
  Claim C7, at a table whose only column is centred and at one whose only column has no
  alignment. The condition of the \<open>style\<close> expression is the wrong way round: the centred
  column gets the empty style on its header cell and its body cell, and the column with no
  alignment gets \<open>text-align: null\<close>.
\<close>

theorem C7_align_style:
  "align centredTable = [Some (js ''center'')] \<and> cellStyle centredTable 0 = [] \<and>
   align unalignedTable = [None] \<and> cellStyle unalignedTable 0 = js ''text-align: null'' \<and>
   fst (renderToken exampleEnv exampleProps centredTable 0) =
     [Element (js ''div'') []
        [Element (js ''div'') []
           [Element (js ''table'') []
              [Element (js ''thead'') []
                 [Element (js ''tr'') []
                    [Element (js ''th'') [(''scope'', js ''col''), (''style'', [])]
                       [Element (js ''div'') []
                          [Element (js ''div'') []
                             [MarkdownInlineTokens (js ''m-0-header-0'')
                                (Some [mkText (js ''A'')])]]]]],
               Element (js ''tbody'') []
                 [Element (js ''tr'') []
                    [Element (js ''td'') [(''style'', [])]
                       [Element (js ''div'') []
                          [MarkdownInlineTokens (js ''m-0-row-0-0'')
                             (Some [mkText (js ''x'')])]]]]]],
         Element (js ''div'') []
           [Tooltip (js ''Export to CSV'')
              [ExportButton centredTable 0
                 [Icon ''ArrowDownTray'' [(''strokeWidth'', js ''1.5'')]]]]]]"
  by code_simp

text \<open>
  Claim C8, as the code has it. A heading token is rendered as the element named \<open>h\<close>
  followed by the text of its depth, with no clamping, around the inline rendering of its
  children. For an integer depth that name is one of the heading elements \<open>h1\<close> to \<open>h6\<close>
  exactly when the depth is from 1 to 6.
\<close>

theorem C8_heading_element:
  assumes "type token = js ''heading''"
  shows "renderToken e p token tokenIdx =
           ([Element (js ''h'' @ numberToString (depth token)) [(''dir'', js ''auto'')]
               [MarkdownInlineTokens (childId (id' p) tokenIdx @ js ''-h'') (tokens token)]], [])
         \<and> (depth token = SafeInteger w \<longrightarrow>
              (js ''h'' @ numberToString (depth token) \<in> set headingTags) =
              (1 \<le> sint w \<and> sint w \<le> 6))"
proof -
  have ne: "js ''heading'' \<noteq> js ''hr''" by (simp add: js_def)
  have r: "renderToken e p token tokenIdx =
           ([Element (js ''h'' @ numberToString (depth token)) [(''dir'', js ''auto'')]
               [MarkdownInlineTokens (childId (id' p) tokenIdx @ js ''-h'') (tokens token)]], [])"
    using assms ne by (simp add: renderToken_def headerComponent_def)
  show ?thesis
    using r heading_tag_iff[of "sint w"] by simp
qed

text \<open>
  The theorem of C8 at a heading of depth 3.
\<close>

theorem C8_heading_element_witness:
  "type (mkHeading (SafeInteger 3) (js ''Title'')) = js ''heading'' \<and>
   depth (mkHeading (SafeInteger 3) (js ''Title'')) = SafeInteger 3 \<and>
   renderToken exampleEnv exampleProps (mkHeading (SafeInteger 3) (js ''Title'')) 0 =
     ([Element (js ''h3'') [(''dir'', js ''auto'')]
         [MarkdownInlineTokens (js ''m-0-h'') (Some [mkText (js ''Title'')])]], []) \<and>
   js ''h3'' \<in> set headingTags"
proof -
  have h: "type (mkHeading (SafeInteger 3) (js ''Title'')) = js ''heading''" by code_simp
  have d: "depth (mkHeading (SafeInteger 3) (js ''Title'')) = SafeInteger 3" by code_simp
  have t: "tokens (mkHeading (SafeInteger 3) (js ''Title'')) = Some [mkText (js ''Title'')]"
    by code_simp
  have n: "js ''h'' @ numberToString (SafeInteger 3) = js ''h3''" by code_simp
  have b: "1 \<le> sint (3 :: 54 word) \<and> sint (3 :: 54 word) \<le> 6" by code_simp
  have i: "childId (id' exampleProps) 0 @ js ''-h'' = js ''m-0-h''" by code_simp
  note c = C8_heading_element[OF h, of exampleEnv exampleProps 0 3]
  have c1: "renderToken exampleEnv exampleProps (mkHeading (SafeInteger 3) (js ''Title'')) 0 =
     ([Element (js ''h3'') [(''dir'', js ''auto'')]
         [MarkdownInlineTokens (js ''m-0-h'') (Some [mkText (js ''Title'')])]], [])"
    using conjunct1[OF c] by (simp only: d t n i)
  have c2: "js ''h3'' \<in> set headingTags"
    using conjunct2[OF c] d b by (simp only: n)
  show ?thesis using h d c1 c2 by blast
qed

text \<open>
  Claim C8 as stated fails: a heading token of depth 7 is rendered as the element \<open>h7\<close>,
  which is no heading element; the depth is not clamped.
\<close>

theorem C8_counterexample:
  "type (mkHeading (SafeInteger 7) (js ''Deep'')) = js ''heading'' \<and>
   renderToken exampleEnv exampleProps (mkHeading (SafeInteger 7) (js ''Deep'')) 0 =
     ([Element (js ''h7'') [(''dir'', js ''auto'')]
         [MarkdownInlineTokens (js ''m-0-h'') (Some [mkText (js ''Deep'')])]], []) \<and>
   js ''h7'' \<notin> set headingTags"
  by code_simp

text \<open>
  Claim C9, as the code has it, for the component on a sequence \<open>xs @ u # ys\<close> where the
  \<open>{#if}\<close> chain does not name the type of \<open>u\<close>. The token \<open>u\<close> emits no element and no
  component and writes one console entry. It gives no record and the filter keeps it, so it
  is in the rendered sequence between what is rendered of \<open>xs\<close> and of \<open>ys\<close>, and the block
  goes on after it. Unless \<open>u\<close> stands right between a trigger paragraph and a list, the
  component renders of \<open>xs @ ys\<close> the same siblings: those before \<open>u\<close> in the same way, those
  after it at a token index one lower than with \<open>u\<close>, which the ids of their children carry.
\<close>

theorem C9_unknown_token:
  assumes "type u \<notin> set dispatchedTypes"
  shows "elementsOf (fst (renderToken e p u k)) = []
         \<and> snd (renderToken e p u k) = [LogUnknownToken u]
         \<and> (let S = extractAllSourcesFromTokens xs @ extractAllSourcesFromTokens ys;
                 A = (if S = [] then xs else filterOutAllSourcesSections xs);
                 B = (if S = [] then ys else filterOutAllSourcesSections ys)
             in MarkdownTokens e p (xs @ u # ys) =
                  (fst (eachToken e p 0 A) @ fst (renderToken e p u (length A)) @
                     fst (eachToken e p (Suc (length A)) B) @ citationStrip S,
                   LogTokens (xs @ u # ys) # snd (eachToken e p 0 A) @ LogUnknownToken u #
                     snd (eachToken e p (Suc (length A)) B))
                \<and> (\<not> (xs \<noteq> [] \<and> sourcesTrigger (last xs) \<and> ys \<noteq> [] \<and>
                       type (hd ys) = js ''list'') \<longrightarrow>
                   MarkdownTokens e p (xs @ ys) =
                     (fst (eachToken e p 0 A) @ fst (eachToken e p (length A) B) @
                        citationStrip S,
                      LogTokens (xs @ ys) # snd (eachToken e p 0 A) @
                        snd (eachToken e p (length A) B))))"
proof -
  note nu = unknown_not_matched[OF assms]
  have r: "renderToken e p u k = ([UndefinedText], [LogUnknownToken u])" for k
    using assms by (rule renderToken_unknown)
  have el: "elementsOf (fst (renderToken e p u k)) = []"
    by (simp add: r elementsOf_def)
  have hd: "u # ys = [] \<or> type (hd (u # ys)) \<noteq> js ''list''"
    using nu(2) by simp
  have ex: "extractAllSourcesFromTokens (xs @ u # ys) =
              extractAllSourcesFromTokens xs @ extractAllSourcesFromTokens ys"
    using extract_append[OF hd, of xs] nu(1) by (simp add: extract_Cons)
  have fi: "filterOutAllSourcesSections (xs @ u # ys) =
              filterOutAllSourcesSections xs @ u # filterOutAllSourcesSections ys"
    using filter_append[OF hd, of xs] nu(1) by (simp add: filter_Cons)
  have ea: "eachToken e p 0 (as @ u # bs) =
              (fst (eachToken e p 0 as) @ fst (renderToken e p u (length as)) @
                 fst (eachToken e p (Suc (length as)) bs),
               snd (eachToken e p 0 as) @ LogUnknownToken u #
                 snd (eachToken e p (Suc (length as)) bs))" for as bs
    using eachToken_append[of e p 0 as "u # bs"] by (simp add: r case_prod_beta)
  have with_u: "MarkdownTokens e p (xs @ u # ys) =
      (fst (eachToken e p 0 A) @ fst (renderToken e p u (length A)) @
         fst (eachToken e p (Suc (length A)) B) @ citationStrip S,
       LogTokens (xs @ u # ys) # snd (eachToken e p 0 A) @ LogUnknownToken u #
         snd (eachToken e p (Suc (length A)) B))"
    if "S = extractAllSourcesFromTokens xs @ extractAllSourcesFromTokens ys"
      "A = (if S = [] then xs else filterOutAllSourcesSections xs)"
      "B = (if S = [] then ys else filterOutAllSourcesSections ys)" for S A B
  proof -
    have ft: "filteredTokens (xs @ u # ys) = A @ u # B"
      using that ex fi by (simp add: filteredTokens_def extractedSources_def)
    show ?thesis
      using that(1) ex
      by (simp add: MarkdownTokens_def ft ea extractedSources_def case_prod_beta)
  qed
  have without_u: "MarkdownTokens e p (xs @ ys) =
      (fst (eachToken e p 0 A) @ fst (eachToken e p (length A) B) @ citationStrip S,
       LogTokens (xs @ ys) # snd (eachToken e p 0 A) @ snd (eachToken e p (length A) B))"
    if "S = extractAllSourcesFromTokens xs @ extractAllSourcesFromTokens ys"
      "A = (if S = [] then xs else filterOutAllSourcesSections xs)"
      "B = (if S = [] then ys else filterOutAllSourcesSections ys)"
      "\<not> (xs \<noteq> [] \<and> sourcesTrigger (last xs) \<and> ys \<noteq> [] \<and> type (hd ys) = js ''list'')"
    for S A B
  proof -
    have ef: "extractAllSourcesFromTokens (xs @ ys) =
                extractAllSourcesFromTokens xs @ extractAllSourcesFromTokens ys
              \<and> filterOutAllSourcesSections (xs @ ys) =
                filterOutAllSourcesSections xs @ filterOutAllSourcesSections ys"
    proof (cases "ys = [] \<or> type (hd ys) \<noteq> js ''list''")
      case True
      show ?thesis using extract_append[OF True, of xs] filter_append[OF True, of xs] by simp
    next
      case False
      with that(4) have la: "xs = [] \<or> \<not> sourcesTrigger (last xs)" by blast
      show ?thesis using extract_append_last[OF la] filter_append_last[OF la] by simp
    qed
    have ft: "filteredTokens (xs @ ys) = A @ B"
      using that(1-3) ef by (simp add: filteredTokens_def extractedSources_def)
    show ?thesis
      using that(1) ef
      by (simp add: MarkdownTokens_def ft eachToken_append[of e p 0 A B] extractedSources_def
          case_prod_beta)
  qed
  show ?thesis
    unfolding Let_def using el r with_u without_u by simp
qed

text \<open>
  The theorem of C9 at an unknown token between two paragraphs.
\<close>

theorem C9_unknown_token_witness:
  "type unknownToken = js ''footnote'' \<and> js ''footnote'' \<notin> set dispatchedTypes \<and>
   \<not> sourcesTrigger (last [plainParagraph]) \<and>
   elementsOf (fst (MarkdownTokens exampleEnv exampleProps
                      [plainParagraph, unknownToken, plainParagraph])) =
     [Element (js ''p'') [(''dir'', js ''auto'')]
        [MarkdownInlineTokens (js ''m-0-p'') (Some [mkText (js ''Hello'')])],
      Element (js ''p'') [(''dir'', js ''auto'')]
        [MarkdownInlineTokens (js ''m-2-p'') (Some [mkText (js ''Hello'')])],
      Style, Element (js ''div'') [] [Element (js ''div'') [] []]] \<and>
   snd (MarkdownTokens exampleEnv exampleProps [plainParagraph, unknownToken, plainParagraph]) =
     [LogTokens [plainParagraph, unknownToken, plainParagraph], LogUnknownToken unknownToken] \<and>
   elementsOf (fst (MarkdownTokens exampleEnv exampleProps [plainParagraph, plainParagraph])) =
     [Element (js ''p'') [(''dir'', js ''auto'')]
        [MarkdownInlineTokens (js ''m-0-p'') (Some [mkText (js ''Hello'')])],
      Element (js ''p'') [(''dir'', js ''auto'')]
        [MarkdownInlineTokens (js ''m-1-p'') (Some [mkText (js ''Hello'')])],
      Style, Element (js ''div'') [] [Element (js ''div'') [] []]]"
proof -
  have t: "type unknownToken = js ''footnote''" by code_simp
  have n: "js ''footnote'' \<notin> set dispatchedTypes" by code_simp
  have h: "type unknownToken \<notin> set dispatchedTypes" using t n by simp
  have g: "\<not> sourcesTrigger (last [plainParagraph])" by code_simp
  have e: "extractAllSourcesFromTokens [plainParagraph] = []" by code_simp
  have a0: "eachToken exampleEnv exampleProps 0 [plainParagraph] =
     ([Element (js ''p'') [(''dir'', js ''auto'')]
         [MarkdownInlineTokens (js ''m-0-p'') (Some [mkText (js ''Hello'')])]], [])"
    by code_simp
  have a1: "eachToken exampleEnv exampleProps (Suc 0) [plainParagraph] =
     ([Element (js ''p'') [(''dir'', js ''auto'')]
         [MarkdownInlineTokens (js ''m-1-p'') (Some [mkText (js ''Hello'')])]], [])"
    by code_simp
  have a2: "eachToken exampleEnv exampleProps (Suc (Suc 0)) [plainParagraph] =
     ([Element (js ''p'') [(''dir'', js ''auto'')]
         [MarkdownInlineTokens (js ''m-2-p'') (Some [mkText (js ''Hello'')])]], [])"
    by code_simp
  have cs: "citationStrip [] =
     [Style, Element (js ''div'') [] [Element (js ''div'') [] ([] :: unit node list)]]"
    by (simp add: citationStrip_def)
  note c = C9_unknown_token[OF h, of exampleEnv exampleProps "Suc 0" "[plainParagraph]"
      "[plainParagraph]", unfolded Let_def e]
  have u0: "elementsOf (fst (renderToken exampleEnv exampleProps unknownToken (Suc 0))) = []"
    using conjunct1[OF c] .
  have m: "MarkdownTokens exampleEnv exampleProps [plainParagraph, unknownToken, plainParagraph] =
      (fst (eachToken exampleEnv exampleProps 0 [plainParagraph]) @
         fst (renderToken exampleEnv exampleProps unknownToken (Suc 0)) @
         fst (eachToken exampleEnv exampleProps (Suc (Suc 0)) [plainParagraph]) @
         citationStrip [],
       LogTokens [plainParagraph, unknownToken, plainParagraph] #
         snd (eachToken exampleEnv exampleProps 0 [plainParagraph]) @
         LogUnknownToken unknownToken #
         snd (eachToken exampleEnv exampleProps (Suc (Suc 0)) [plainParagraph]))"
    using conjunct1[OF conjunct2[OF conjunct2[OF c]]] by simp
  have m': "MarkdownTokens exampleEnv exampleProps [plainParagraph, plainParagraph] =
      (fst (eachToken exampleEnv exampleProps 0 [plainParagraph]) @
         fst (eachToken exampleEnv exampleProps (Suc 0) [plainParagraph]) @ citationStrip [],
       LogTokens [plainParagraph, plainParagraph] #
         snd (eachToken exampleEnv exampleProps 0 [plainParagraph]) @
         snd (eachToken exampleEnv exampleProps (Suc 0) [plainParagraph]))"
    using conjunct2[OF conjunct2[OF conjunct2[OF c]]] g by simp
  have c1: "elementsOf (fst (MarkdownTokens exampleEnv exampleProps
                      [plainParagraph, unknownToken, plainParagraph])) =
     [Element (js ''p'') [(''dir'', js ''auto'')]
        [MarkdownInlineTokens (js ''m-0-p'') (Some [mkText (js ''Hello'')])],
      Element (js ''p'') [(''dir'', js ''auto'')]
        [MarkdownInlineTokens (js ''m-2-p'') (Some [mkText (js ''Hello'')])],
      Style, Element (js ''div'') [] [Element (js ''div'') [] []]]"
    by (simp add: m a0 a2 cs elementsOf_def u0[unfolded elementsOf_def] del: eachToken.simps)
  have c2: "snd (MarkdownTokens exampleEnv exampleProps
                   [plainParagraph, unknownToken, plainParagraph]) =
     [LogTokens [plainParagraph, unknownToken, plainParagraph], LogUnknownToken unknownToken]"
    by (simp add: m a0 a2 del: eachToken.simps)
  have c3: "elementsOf (fst (MarkdownTokens exampleEnv exampleProps
                      [plainParagraph, plainParagraph])) =
     [Element (js ''p'') [(''dir'', js ''auto'')]
        [MarkdownInlineTokens (js ''m-0-p'') (Some [mkText (js ''Hello'')])],
      Element (js ''p'') [(''dir'', js ''auto'')]
        [MarkdownInlineTokens (js ''m-1-p'') (Some [mkText (js ''Hello'')])],
      Style, Element (js ''div'') [] [Element (js ''div'') [] []]]"
    by (simp add: m' a0 a1 cs elementsOf_def del: eachToken.simps)
  show ?thesis using t n g c1 c2 c3 by blast
qed

text \<open>
  Claim C9 as stated fails. With the unknown token between a trigger paragraph and its list
  the two are not matched: nothing is extracted and both are rendered; without it they are
  extracted and removed, and the block renders nothing. And the paragraph after an unknown
  token is rendered with the child id \<open>m-1-p\<close>, where without that token it is rendered with
  \<open>m-0-p\<close>.
\<close>

theorem C9_counterexample:
  "type unknownToken = js ''footnote'' \<and> js ''footnote'' \<notin> set dispatchedTypes \<and>
   filteredTokens [sourcesParagraph, unknownToken, linkList] =
     [sourcesParagraph, unknownToken, linkList] \<and>
   length (elementsOf (fst (eachToken exampleEnv exampleProps 0
     (filteredTokens [sourcesParagraph, unknownToken, linkList])))) = 2 \<and>
   filteredTokens [sourcesParagraph, linkList] = [] \<and>
   fst (eachToken exampleEnv exampleProps 0 (filteredTokens [sourcesParagraph, linkList])) = [] \<and>
   elementsOf (fst (eachToken exampleEnv exampleProps 0
     (filteredTokens [unknownToken, plainParagraph]))) =
     [Element (js ''p'') [(''dir'', js ''auto'')]
        [MarkdownInlineTokens (js ''m-1-p'') (Some [mkText (js ''Hello'')])]] \<and>
   elementsOf (fst (eachToken exampleEnv exampleProps 0 (filteredTokens [plainParagraph]))) =
     [Element (js ''p'') [(''dir'', js ''auto'')]
        [MarkdownInlineTokens (js ''m-0-p'') (Some [mkText (js ''Hello'')])]]"
  by code_simp

text \<open>
  Claim C10. The component renders one citation card for each extracted record, in order,
  after the tokens. The card of a record links to its url, carries its title as tooltip,
  and shows as text the title itself when the title has at most 48 code units, and its
  first 45 code units followed by three dots when it has more.
\<close>

theorem C10_title_truncation:
  "citationCard s =
     Element (js ''a'')
       [(''href'', url s), (''target'', js ''_blank''), (''rel'', js ''noopener noreferrer''),
        (''title'', title s)]
       ((case getYouTubeId (url s) of
           Some v \<Rightarrow>
             [Element (js ''img'')
                [(''src'', js ''https://img.youtube.com/vi/'' @ v @ js ''/hqdefault.jpg''),
                 (''alt'', js ''YouTube thumbnail'')] []]
         | None \<Rightarrow> [])
        @ [Element (js ''div'') []
             [Element (js ''div'') []
                [Icon ''YouTube'' [(''size'', js ''18''), (''color'', js ''#ff0000'')]],
              Element (js ''div'') []
                [TextNode (if length (title s) \<le> 48 then title s
                           else take 45 (title s) @ js ''...'')]]])
   \<and> fst (MarkdownTokens e p toks) =
       fst (eachToken e p 0 (filteredTokens toks)) @
       [Style,
        Element (js ''div'') []
          [Element (js ''div'') [] (map citationCard (extractAllSourcesFromTokens toks))]]"
  by (auto simp: citationCard_def citationTitle_def MarkdownTokens_def citationStrip_def
      extractedSources_def case_prod_beta)

text \<open>
  The theorem of C10 at a record with a title of 48 code units and at one with a title of
  60 code units and a YouTube url.
\<close>

theorem C10_title_truncation_witness:
  "length title48 = 48 \<and>
   (citationCard \<lparr>title = title48, url = js ''https://example.org/docs''\<rparr> :: unit node) =
     Element (js ''a'')
       [(''href'', js ''https://example.org/docs''), (''target'', js ''_blank''),
        (''rel'', js ''noopener noreferrer''), (''title'', title48)]
       [Element (js ''div'') []
          [Element (js ''div'') []
             [Icon ''YouTube'' [(''size'', js ''18''), (''color'', js ''#ff0000'')]],
           Element (js ''div'') [] [TextNode title48]]] \<and>
   length title60 = 60 \<and>
   (citationCard \<lparr>title = title60, url = js ''https://youtu.be/dQw4w9WgXcQ''\<rparr> :: unit node) =
     Element (js ''a'')
       [(''href'', js ''https://youtu.be/dQw4w9WgXcQ''), (''target'', js ''_blank''),
        (''rel'', js ''noopener noreferrer''), (''title'', title60)]
       [Element (js ''img'')
          [(''src'', js ''https://img.youtube.com/vi/dQw4w9WgXcQ/hqdefault.jpg''),
           (''alt'', js ''YouTube thumbnail'')] [],
        Element (js ''div'') []
          [Element (js ''div'') []
             [Icon ''YouTube'' [(''size'', js ''18''), (''color'', js ''#ff0000'')]],
           Element (js ''div'') []
             [TextNode (js ''An introduction to verified markdown renderin...'')]]]"
proof -
  have a: "length title48 = 48" by code_simp
  have b: "length title60 = 60" by code_simp
  have t: "take 45 title60 @ js ''...'' = js ''An introduction to verified markdown renderin...''"
    by code_simp
  have y1: "getYouTubeId (js ''https://example.org/docs'') = None" by code_simp
  have y2: "getYouTubeId (js ''https://youtu.be/dQw4w9WgXcQ'') = Some (js ''dQw4w9WgXcQ'')"
    by code_simp
  have s: "js ''https://img.youtube.com/vi/'' @ js ''dQw4w9WgXcQ'' @ js ''/hqdefault.jpg'' =
           js ''https://img.youtube.com/vi/dQw4w9WgXcQ/hqdefault.jpg''"
    by code_simp
  have c1: "(citationCard \<lparr>title = title48, url = js ''https://example.org/docs''\<rparr> :: unit node) =
     Element (js ''a'')
       [(''href'', js ''https://example.org/docs''), (''target'', js ''_blank''),
        (''rel'', js ''noopener noreferrer''), (''title'', title48)]
       [Element (js ''div'') []
          [Element (js ''div'') []
             [Icon ''YouTube'' [(''size'', js ''18''), (''color'', js ''#ff0000'')]],
           Element (js ''div'') [] [TextNode title48]]]"
    using conjunct1[OF C10_title_truncation[of
        "\<lparr>title = title48, url = js ''https://example.org/docs''\<rparr>" exampleEnv exampleProps "[]"]]
    by (simp add: a y1)
  have c2: "(citationCard \<lparr>title = title60, url = js ''https://youtu.be/dQw4w9WgXcQ''\<rparr> :: unit node) =
     Element (js ''a'')
       [(''href'', js ''https://youtu.be/dQw4w9WgXcQ''), (''target'', js ''_blank''),
        (''rel'', js ''noopener noreferrer''), (''title'', title60)]
       [Element (js ''img'')
          [(''src'', js ''https://img.youtube.com/vi/dQw4w9WgXcQ/hqdefault.jpg''),
           (''alt'', js ''YouTube thumbnail'')] [],
        Element (js ''div'') []
          [Element (js ''div'') []
             [Icon ''YouTube'' [(''size'', js ''18''), (''color'', js ''#ff0000'')]],
           Element (js ''div'') []
             [TextNode (js ''An introduction to verified markdown renderin...'')]]]"
    using conjunct1[OF C10_title_truncation[of
        "\<lparr>title = title60, url = js ''https://youtu.be/dQw4w9WgXcQ''\<rparr>" exampleEnv exampleProps "[]"]]
    by (simp add: b y2 t s)
  show ?thesis using a b c1 c2 by blast
qed

end
